theory Spec2Isabelle
  imports Complex_Main "HOL-Library.Sublist"
begin

section \<open>The CloudSim integration monitor (integrate-with-existing-nextjs.js)\<close>

text \<open>
  A shallow embedding of the class \<^verbatim>\<open>ExistingNextJSMonitor\<close>. The object's mutable
  fields become a record that every method takes and returns. JavaScript numbers that
  only count upwards from 0 are \<open>nat\<close>, the gauge \<open>activeConnections\<close> (decremented
  under \<^verbatim>\<open>Math.max(0, _)\<close>) is \<open>int\<close>, wall-clock readings of \<^verbatim>\<open>Date.now()\<close> are
  \<open>int\<close> milliseconds, and durations, averages and rates are idealised as \<open>real\<close>:
  the rounding error of IEEE doubles is modelled only where a result of \<^verbatim>\<open>Math.round\<close>
  depends on it, in \<open>collectMetrics\<close>. Console output is not modelled.
  Everything the methods read from outside the object (clocks, the resource probe, the
  file system, \<^verbatim>\<open>Math.random\<close>, whether the file write succeeds) is an explicit argument.
\<close>

subsection \<open>Property reads and writes on the plain object \<^verbatim>\<open>metrics.routes\<close>\<close>

text \<open>
  \<^verbatim>\<open>routes\<close> is created as the object literal \<^verbatim>\<open>{}\<close>, so its prototype is
  \<^verbatim>\<open>Object.prototype\<close>: reading a key the object does not own finds the member of that
  name on the prototype, if there is one. The own properties the monitor stores are
  numbers; \<open>NaN\<close> is what \<^verbatim>\<open>++\<close> stores when the operand is not a number.
\<close>

datatype jsnum = Num nat | NaN

datatype jsval = Undefined | Number jsnum | Inherited

type_synonym route_table = "string \<rightharpoonup> jsnum"

text \<open>The property names of \<^verbatim>\<open>Object.prototype\<close> (ECMAScript, with Annex B).\<close>

definition object_prototype_names :: "string list" where
  "object_prototype_names =
     [''constructor'', ''__defineGetter__'', ''__defineSetter__'', ''hasOwnProperty'',
      ''__lookupGetter__'', ''__lookupSetter__'', ''isPrototypeOf'',
      ''propertyIsEnumerable'', ''toString'', ''valueOf'', ''__proto__'',
      ''toLocaleString'']"

text \<open>\<^verbatim>\<open>obj[key]\<close>: the own property, else the inherited member, else \<^verbatim>\<open>undefined\<close>.\<close>

definition get_prop :: "route_table \<Rightarrow> string \<Rightarrow> jsval" where
  "get_prop r k =
     (case r k of
        Some v \<Rightarrow> Number v
      | None \<Rightarrow> if k \<in> set object_prototype_names then Inherited else Undefined)"

text \<open>
  \<^verbatim>\<open>obj[key] = number\<close>: creates or overwrites the own property, except for
  \<^verbatim>\<open>__proto__\<close>, whose inherited setter ignores a value that is not an object.
\<close>

definition set_prop :: "route_table \<Rightarrow> string \<Rightarrow> jsnum \<Rightarrow> route_table" where
  "set_prop r k v = (if k = ''__proto__'' then r else r(k \<mapsto> v))"

text \<open>Truthiness: \<^verbatim>\<open>undefined\<close>, \<open>0\<close> and \<open>NaN\<close> are falsy; functions and objects are truthy.\<close>

fun truthy :: "jsval \<Rightarrow> bool" where
  "truthy Undefined = False"
| "truthy (Number (Num n)) = (n \<noteq> 0)"
| "truthy (Number NaN) = False"
| "truthy Inherited = True"

text \<open>The value that \<^verbatim>\<open>x++\<close> stores back: \<open>ToNumber(x) + 1\<close>.\<close>

fun post_increment :: "jsval \<Rightarrow> jsnum" where
  "post_increment (Number (Num n)) = Num (n + 1)"
| "post_increment (Number NaN) = NaN"
| "post_increment Undefined = NaN"
| "post_increment Inherited = NaN"

subsection \<open>The state of the monitor\<close>

record pages =
  home :: nat
  api :: nat
  other :: nat

record buildInfo =
  lastBuild :: "int option"
  buildTime :: int
  isProduction :: bool

record metrics =
  projectName :: string
  responseTime :: real
  cpuUsage :: real
  memoryUsage :: real
  requestCount :: nat
  errorCount :: nat
  successCount :: nat
  activeConnections :: int
  timestamp :: int
  uptime :: int
  pages :: pages
  routes :: route_table
  buildInfo :: buildInfo

text \<open>The resolved options (\<^verbatim>\<open>this.options\<close>), taken as given.\<close>

record options =
  metricsFile :: string
  updateInterval :: real
  enableConsoleOutput :: bool
  optProjectName :: string

text \<open>\<open>metricsInterval\<close> is \<open>True\<close> while the \<^verbatim>\<open>setInterval\<close> timer is armed.\<close>

record monitor =
  options :: options
  metrics :: metrics
  startTime :: int
  requestTimes :: "real list"
  metricsInterval :: bool

subsection \<open>The record written to the metrics file\<close>

record integration =
  cloudsimReady :: bool
  monitoringActive :: bool
  version :: string

text \<open>\<open>snapshot\<close> holds the fields spread from \<^verbatim>\<open>this.metrics\<close>.\<close>

record output_record =
  snapshot :: metrics
  requestRate :: real
  errorRate :: real
  successRate :: real
  lastUpdated :: int
  integration :: integration

subsection \<open>classifyPage\<close>

datatype page_type = Home | Api | Other

text \<open>\<^verbatim>\<open>s.startsWith(p)\<close>, on the characters of the string.\<close>

definition startsWith :: "string \<Rightarrow> string \<Rightarrow> bool" where
  "startsWith s p = (take (length p) s = p)"

definition classifyPage :: "string \<Rightarrow> page_type" where
  "classifyPage pageName =
     (if pageName = ''/'' \<or> pageName = ''/index'' then Home
      else if startsWith pageName ''/api/'' then Api
      else Other)"

subsection \<open>updateMetrics\<close>

definition updateMetrics :: "monitor \<Rightarrow> real \<Rightarrow> nat \<Rightarrow> string \<Rightarrow> string \<Rightarrow> monitor" where
  "updateMetrics m rt statusCode route type =
     (let pushed = requestTimes m @ [rt];
          times = (if length pushed > 1000 then tl pushed else pushed);
          mt = metrics m;
          mt1 = mt\<lparr>requestCount := requestCount mt + 1\<rparr>;
          mt2 = (if statusCode \<ge> 400 then mt1\<lparr>errorCount := errorCount mt1 + 1\<rparr>
                 else mt1\<lparr>successCount := successCount mt1 + 1\<rparr>);
          pg = pages mt2;
          mt3 = (if type = ''api'' then mt2\<lparr>pages := pg\<lparr>api := api pg + 1\<rparr>\<rparr>
                 else if route = ''/'' \<or> route = ''/index''
                   then mt2\<lparr>pages := pg\<lparr>home := home pg + 1\<rparr>\<rparr>
                 else mt2\<lparr>pages := pg\<lparr>other := other pg + 1\<rparr>\<rparr>);
          r0 = routes mt3;
          r1 = (if \<not> truthy (get_prop r0 route) then set_prop r0 route (Num 0) else r0);
          r2 = set_prop r1 route (post_increment (get_prop r1 route));
          mt4 = mt3\<lparr>routes := r2\<rparr>;
          mt5 = (if length times > 0
                 then mt4\<lparr>responseTime := foldl (+) 0 times / real (length times)\<rparr>
                 else mt4)
      in m\<lparr>requestTimes := times, metrics := mt5\<rparr>)"

subsection \<open>trackApiRoute\<close>

text \<open>
  The wrapper is an \<^verbatim>\<open>async\<close> function: it runs up to the \<^verbatim>\<open>await\<close> in one step and
  resumes, when the handler has settled, in a second step; other calls may run between
  the two. \<open>trackApiRoute_enter\<close> is the first step; it returns the state and the values
  the closure keeps (\<^verbatim>\<open>startTime\<close>, \<^verbatim>\<open>route\<close>). \<^verbatim>\<open>req.url\<close> is a string or absent, and
  \<^verbatim>\<open>req.url || 'unknown'\<close> replaces an absent or empty one.
\<close>

definition trackApiRoute_enter ::
  "monitor \<Rightarrow> real \<Rightarrow> string option \<Rightarrow> monitor \<times> (real \<times> string)" where
  "trackApiRoute_enter m perfNow url =
     (let start = perfNow;
          route = (case url of None \<Rightarrow> ''unknown''
                   | Some u \<Rightarrow> if u = [] then ''unknown'' else u);
          mt = metrics m
      in (m\<lparr>metrics := mt\<lparr>activeConnections := activeConnections mt + 1\<rparr>\<rparr>,
          (start, route)))"

text \<open>
  The second step. The handler's outcome is \<open>Inr result\<close> when it returned and \<open>Inl error\<close>
  when it threw (or its promise rejected); the wrapper's own outcome has the same type.
  The \<^verbatim>\<open>finally\<close> block runs on both paths, after \<^verbatim>\<open>updateMetrics\<close>.
\<close>

definition trackApiRoute_exit ::
  "monitor \<Rightarrow> real \<times> string \<Rightarrow> real \<Rightarrow> 'e + 'r \<Rightarrow> monitor \<times> ('e + 'r)" where
  "trackApiRoute_exit m closure perfNow handled =
     (let start = fst closure; route = snd closure;
          (m1, res) =
            (case handled of
               Inr result \<Rightarrow> (updateMetrics m (perfNow - start) 200 route ''api'', Inr result)
             | Inl error \<Rightarrow> (updateMetrics m (perfNow - start) 500 route ''api'', Inl error));
          mt = metrics m1
      in (m1\<lparr>metrics := mt\<lparr>activeConnections := max 0 (activeConnections mt - 1)\<rparr>\<rparr>, res))"

subsection \<open>trackPageView and trackCustomEvent\<close>

definition trackPageView :: "monitor \<Rightarrow> string \<Rightarrow> monitor" where
  "trackPageView m pageName =
     (let pageType = classifyPage pageName;
          mt = metrics m;
          pg = pages mt;
          pg1 = (case pageType of
                   Home \<Rightarrow> pg\<lparr>home := home pg + 1\<rparr>
                 | Api \<Rightarrow> pg\<lparr>api := api pg + 1\<rparr>
                 | Other \<Rightarrow> pg\<lparr>other := other pg + 1\<rparr>);
          r0 = routes mt;
          r1 = (if \<not> truthy (get_prop r0 pageName) then set_prop r0 pageName (Num 0) else r0);
          r2 = set_prop r1 pageName (post_increment (get_prop r1 pageName))
      in m\<lparr>metrics := mt\<lparr>pages := pg1, routes := r2\<rparr>\<rparr>)"

text \<open>
  \<open>duration\<close> is \<open>None\<close> when the argument is absent. \<^verbatim>\<open>if (duration)\<close> is the
  truthiness test: an absent duration and the number 0 both fail it.
\<close>

definition trackCustomEvent :: "monitor \<Rightarrow> string \<Rightarrow> real option \<Rightarrow> monitor" where
  "trackCustomEvent m eventName duration =
     (let times =
            (case duration of
               None \<Rightarrow> requestTimes m
             | Some d \<Rightarrow>
                 if d \<noteq> 0
                 then (let pushed = requestTimes m @ [d]
                       in if length pushed > 1000 then tl pushed else pushed)
                 else requestTimes m);
          mt = metrics m;
          r0 = routes mt;
          r1 = (if \<not> truthy (get_prop r0 eventName) then set_prop r0 eventName (Num 0) else r0);
          r2 = set_prop r1 eventName (post_increment (get_prop r1 eventName))
      in m\<lparr>requestTimes := times, metrics := mt\<lparr>routes := r2\<rparr>\<rparr>)"

subsection \<open>collectMetrics and updateBuildInfo\<close>

text \<open>What \<^verbatim>\<open>updateBuildInfo\<close> finds on disk.\<close>

datatype pkg_probe = PkgMissing | PkgThrows | PkgJson "string option"

datatype next_probe = NextMissing | NextThrows | NextStat int

text \<open>
  What one aggregation cycle reads from outside the monitor, and the arithmetic of the
  machine it runs on: \<open>toDouble x\<close> is the IEEE double nearest to \<open>x\<close>, which is what an
  arithmetic operation with the exact result \<open>x\<close> yields.
\<close>

record env =
  rss :: nat
  cpuUser :: nat
  cpuSystem :: nat
  toDouble :: "real \<Rightarrow> real"
  mathRandom :: real
  nowTimestamp :: int
  nowUptime :: int
  nowBuild :: int
  packageJson :: pkg_probe
  nextBuild :: next_probe

text \<open>\<^verbatim>\<open>Math.round\<close>: the nearest integer, a tie going up.\<close>

definition Math_round :: "real \<Rightarrow> real" where
  "Math_round x = of_int \<lfloor>x + 1 / 2\<rfloor>"

text \<open>
  The \<^verbatim>\<open>try\<close> block stops at the first exception, which is then ignored: a
  \<^verbatim>\<open>package.json\<close> that cannot be read or parsed also skips the \<^verbatim>\<open>.next\<close> check.
\<close>

definition updateBuildInfo :: "monitor \<Rightarrow> env \<Rightarrow> monitor" where
  "updateBuildInfo m e =
     (let mt = metrics m in
      case packageJson e of
        PkgThrows \<Rightarrow> m
      | _ \<Rightarrow>
        (let mt1 =
               (case packageJson e of
                  PkgJson (Some n) \<Rightarrow>
                    mt\<lparr>projectName := (if n = [] then optProjectName (options m) else n)\<rparr>
                | PkgJson None \<Rightarrow> mt\<lparr>projectName := optProjectName (options m)\<rparr>
                | _ \<Rightarrow> mt)
         in case nextBuild e of
              NextStat mtime \<Rightarrow>
                m\<lparr>metrics := mt1\<lparr>buildInfo :=
                     (buildInfo mt1)\<lparr>lastBuild := Some mtime, buildTime := nowBuild e - mtime\<rparr>\<rparr>\<rparr>
            | _ \<Rightarrow> m\<lparr>metrics := mt1\<rparr>))"

text \<open>
  The argument of each \<^verbatim>\<open>Math.round\<close> is computed in doubles, operation by operation
  (the sum of the two CPU times is an integer and exact). The quotient of the rounded
  integer by 100 or by 10 is taken as the exact decimal number, which the double nearest
  to it stands for.
\<close>

definition collectMetrics :: "monitor \<Rightarrow> env \<Rightarrow> monitor" where
  "collectMetrics m e =
     (let d = toDouble e;
          mt = metrics m;
          mt1 = mt\<lparr>memoryUsage :=
                  Math_round (d (d (d (real (rss e) / 1024) / 1024) * 100)) / 100\<rparr>;
          mt2 = mt1\<lparr>cpuUsage := min 100 (max 5
                  (Math_round (d (d (d (real (cpuUser e + cpuSystem e) / 1000000) *
                                        d (updateInterval (options m) / 1000)) * 10)) / 10))\<rparr>;
          mt3 = (if cpuUsage mt2 < 10 \<and> requestCount mt2 > 0
                 then mt2\<lparr>cpuUsage := 15 + mathRandom e * 30\<rparr> else mt2);
          mt4 = mt3\<lparr>timestamp := nowTimestamp e, uptime := nowUptime e - startTime m\<rparr>
      in updateBuildInfo (m\<lparr>metrics := mt4\<rparr>) e)"

subsection \<open>writeMetricsFile, getMetrics, cleanup\<close>

text \<open>
  \<open>isoNow\<close> is the clock reading behind \<^verbatim>\<open>lastUpdated\<close>, and \<open>writeOk\<close> says whether
  \<^verbatim>\<open>fs.writeFileSync\<close> succeeds; when it throws, the error is logged and nothing is
  written. The result is the record that reached the file, if any; the monitor itself is
  not changed.
\<close>

definition writeMetricsFile :: "monitor \<Rightarrow> int \<Rightarrow> bool \<Rightarrow> output_record option" where
  "writeMetricsFile m isoNow writeOk =
     (let mt = metrics m;
          out = \<lparr>snapshot = mt,
                 requestRate = (if uptime mt > 0
                                then real (requestCount mt) / (real_of_int (uptime mt) / 1000)
                                else 0),
                 errorRate = (if requestCount mt > 0
                              then (real (errorCount mt) / real (requestCount mt)) * 100
                              else 0),
                 successRate = (if requestCount mt > 0
                                then (real (successCount mt) / real (requestCount mt)) * 100
                                else 100),
                 lastUpdated = isoNow,
                 integration = \<lparr>cloudsimReady = True, monitoringActive = True,
                                version = ''2.0''\<rparr>\<rparr>
      in if writeOk then Some out else None)"


text \<open>
  \<^verbatim>\<open>clearInterval\<close> disarms the timer; clearing a timer that is already cleared does
  nothing.
\<close>

definition cleanup :: "monitor \<Rightarrow> int \<Rightarrow> bool \<Rightarrow> monitor \<times> output_record option" where
  "cleanup m isoNow writeOk =
     (let m1 = (if metricsInterval m then m\<lparr>metricsInterval := False\<rparr> else m)
      in (m1, writeMetricsFile m1 isoNow writeOk))"

subsection \<open>Construction\<close>

text \<open>
  \<^verbatim>\<open>initialize\<close> arms the timer and makes the initial write. The constructor sets the
  fields and calls it; \<open>now1\<close> and \<open>now2\<close> are its two readings of \<^verbatim>\<open>Date.now()\<close>, for
  \<^verbatim>\<open>timestamp\<close> and for \<^verbatim>\<open>startTime\<close>, and \<open>isProd\<close> is
  \<^verbatim>\<open>process.env.NODE_ENV === 'production'\<close>.
\<close>

definition initialize :: "monitor \<Rightarrow> int \<Rightarrow> bool \<Rightarrow> monitor \<times> output_record option" where
  "initialize m isoNow writeOk =
     (let m1 = m\<lparr>metricsInterval := True\<rparr>
      in (m1, writeMetricsFile m1 isoNow writeOk))"

definition initial_metrics :: "options \<Rightarrow> int \<Rightarrow> bool \<Rightarrow> metrics" where
  "initial_metrics opts now isProd =
     \<lparr>projectName = optProjectName opts, responseTime = 0, cpuUsage = 0, memoryUsage = 0,
      requestCount = 0, errorCount = 0, successCount = 0, activeConnections = 0,
      timestamp = now, uptime = 0,
      pages = \<lparr>home = 0, api = 0, other = 0\<rparr>,
      routes = Map.empty,
      buildInfo = \<lparr>lastBuild = None, buildTime = 0, isProduction = isProd\<rparr>\<rparr>"

definition new_monitor ::
  "options \<Rightarrow> int \<Rightarrow> int \<Rightarrow> bool \<Rightarrow> int \<Rightarrow> bool \<Rightarrow> monitor \<times> output_record option" where
  "new_monitor opts now1 now2 isProd isoNow writeOk =
     initialize
       \<lparr>options = opts, metrics = initial_metrics opts now1 isProd, startTime = now2,
        requestTimes = [], metricsInterval = False\<rparr>
       isoNow writeOk"

subsection \<open>The monitor in its process\<close>

text \<open>
  The process is single-threaded: it runs one callback at a time, to its end. A run is
  the list of callbacks in the order they ran. \<open>disk\<close> lists the records written to the
  metrics file, oldest first. What a handler returns or throws goes back to the caller
  and never into the monitor, so an \<open>ApiExit\<close> event only records which of the two
  happened: \<open>Inr ()\<close> for a handler that returned, \<open>Inl ()\<close> for one that threw.
\<close>

record system =
  mon :: monitor
  disk :: "output_record list"

datatype event =
    ApiEnter real "string option"
  | ApiExit "real \<times> string" real "unit + unit"
  | PageView string
  | CustomEvent string "real option"
  | Tick env int bool
  | Signal int bool

definition persist :: "output_record list \<Rightarrow> output_record option \<Rightarrow> output_record list" where
  "persist d w = (case w of None \<Rightarrow> d | Some out \<Rightarrow> d @ [out])"

text \<open>
  The timer callback runs \<^verbatim>\<open>collectMetrics\<close> and \<^verbatim>\<open>writeMetricsFile\<close> (and
  \<^verbatim>\<open>logMetrics\<close>, which only prints); a timer that has been cleared does not fire.
  \<^verbatim>\<open>SIGINT\<close> and \<^verbatim>\<open>SIGTERM\<close> both run \<^verbatim>\<open>cleanup\<close>.
\<close>

fun step :: "system \<Rightarrow> event \<Rightarrow> system" where
  "step s (ApiEnter perfNow url) = s\<lparr>mon := fst (trackApiRoute_enter (mon s) perfNow url)\<rparr>"
| "step s (ApiExit closure perfNow handled) =
     s\<lparr>mon := fst (trackApiRoute_exit (mon s) closure perfNow handled)\<rparr>"
| "step s (PageView pageName) = s\<lparr>mon := trackPageView (mon s) pageName\<rparr>"
| "step s (CustomEvent eventName duration) =
     s\<lparr>mon := trackCustomEvent (mon s) eventName duration\<rparr>"
| "step s (Tick e isoNow writeOk) =
     (if metricsInterval (mon s)
      then (let m1 = collectMetrics (mon s) e
            in \<lparr>mon = m1, disk = persist (disk s) (writeMetricsFile m1 isoNow writeOk)\<rparr>)
      else s)"
| "step s (Signal isoNow writeOk) =
     (let (m1, w) = cleanup (mon s) isoNow writeOk
      in \<lparr>mon = m1, disk = persist (disk s) w\<rparr>)"

definition run :: "system \<Rightarrow> event list \<Rightarrow> system" where
  "run s evs = foldl step s evs"

text \<open>The process after a monitor has been constructed, on an empty metrics file.\<close>

definition start :: "options \<Rightarrow> int \<Rightarrow> int \<Rightarrow> bool \<Rightarrow> int \<Rightarrow> bool \<Rightarrow> system" where
  "start opts now1 now2 isProd isoNow writeOk =
     (let (m, w) = new_monitor opts now1 now2 isProd isoNow writeOk
      in \<lparr>mon = m, disk = persist [] w\<rparr>)"

subsection \<open>Notions used to state the properties\<close>

text \<open>
  The samples an event pushes into \<open>requestTimes\<close>: a completed API call pushes its
  elapsed time, a custom event its duration when that is truthy.
\<close>

fun pushed_samples :: "event \<Rightarrow> real list" where
  "pushed_samples (ApiExit closure perfNow handled) = [perfNow - fst closure]"
| "pushed_samples (CustomEvent eventName (Some d)) = (if d \<noteq> 0 then [d] else [])"
| "pushed_samples _ = []"

definition samples_of_run :: "event list \<Rightarrow> real list" where
  "samples_of_run evs = concat (map pushed_samples evs)"

text \<open>The last \<open>n\<close> elements of a list, in their order (the whole list when it is shorter).\<close>

definition last_n :: "nat \<Rightarrow> 'a list \<Rightarrow> 'a list" where
  "last_n n xs = drop (length xs - n) xs"

text \<open>
  Calls of the wrapper in flight. \<open>in_flight k evs\<close> starts with \<open>k\<close> calls in flight and
  follows the run: a call enters, and later completes; the result is the number still in
  flight at the end, or \<open>None\<close> for a list in which a call completes that never
  entered, which is no run of the program.
\<close>

fun in_flight :: "nat \<Rightarrow> event list \<Rightarrow> nat option" where
  "in_flight k [] = Some k"
| "in_flight k (ApiEnter perfNow url # evs) = in_flight (k + 1) evs"
| "in_flight k (ApiExit closure perfNow handled # evs) =
     (if k = 0 then None else in_flight (k - 1) evs)"
| "in_flight k (PageView pageName # evs) = in_flight k evs"
| "in_flight k (CustomEvent eventName duration # evs) = in_flight k evs"
| "in_flight k (Tick e isoNow writeOk # evs) = in_flight k evs"
| "in_flight k (Signal isoNow writeOk # evs) = in_flight k evs"

text \<open>
  The calls of a run, and among its completions those whose handler returned and those
  whose handler threw.
\<close>

fun is_call :: "event \<Rightarrow> bool" where
  "is_call (ApiEnter perfNow url) = True"
| "is_call _ = False"

fun is_success :: "event \<Rightarrow> bool" where
  "is_success (ApiExit closure perfNow (Inr result)) = True"
| "is_success _ = False"

fun is_failure :: "event \<Rightarrow> bool" where
  "is_failure (ApiExit closure perfNow (Inl error)) = True"
| "is_failure _ = False"

definition count_where :: "('a \<Rightarrow> bool) \<Rightarrow> 'a list \<Rightarrow> nat" where
  "count_where P xs = length (filter P xs)"

text \<open>
  The arithmetic mean of the buffer's samples, 0 for an empty buffer.
\<close>

definition buffer_mean :: "real list \<Rightarrow> real" where
  "buffer_mean xs = (if xs = [] then 0 else sum_list xs / real (length xs))"

text \<open>
  A custom event with a truthy duration: the one event that pushes a sample without
  going through \<^verbatim>\<open>updateMetrics\<close>.
\<close>

fun timed_custom :: "event \<Rightarrow> bool" where
  "timed_custom (CustomEvent eventName (Some d)) = (d \<noteq> 0)"
| "timed_custom _ = False"

text \<open>
  Whether the stored mean is current at the end of a list of events, given whether it was
  at its beginning: a completed call recomputes it, a custom event with a truthy
  duration pushes a sample past it, and no other event touches it or the buffer.
\<close>

fun mean_current :: "bool \<Rightarrow> event list \<Rightarrow> bool" where
  "mean_current b [] = b"
| "mean_current b (ApiEnter perfNow url # evs) = mean_current b evs"
| "mean_current b (ApiExit closure perfNow handled # evs) = mean_current True evs"
| "mean_current b (PageView pageName # evs) = mean_current b evs"
| "mean_current b (CustomEvent eventName duration # evs) =
     mean_current (b \<and> \<not> timed_custom (CustomEvent eventName duration)) evs"
| "mean_current b (Tick e isoNow writeOk # evs) = mean_current b evs"
| "mean_current b (Signal isoNow writeOk # evs) = mean_current b evs"

fun is_signal :: "event \<Rightarrow> bool" where
  "is_signal (Signal isoNow writeOk) = True"
| "is_signal _ = False"

text \<open>
  A number with at most two decimal places: rounding it to two places, the way
  \<^verbatim>\<open>collectMetrics\<close> rounds, gives it back.
\<close>

definition two_decimals :: "real \<Rightarrow> bool" where
  "two_decimals x = (Math_round (x * 100) / 100 = x)"

text \<open>
  The stored \<open>memoryUsage\<close> and that of every record on disk have at most two decimal
  places.
\<close>

definition rounded_on_disk :: "system \<Rightarrow> bool" where
  "rounded_on_disk s =
     (two_decimals (memoryUsage (metrics (mon s))) \<and>
      (\<forall>out \<in> set (disk s). two_decimals (memoryUsage (snapshot out))))"

text \<open>
  The tally idiom that \<^verbatim>\<open>updateMetrics\<close>, \<^verbatim>\<open>trackPageView\<close> and \<^verbatim>\<open>trackCustomEvent\<close>
  each apply to \<^verbatim>\<open>routes\<close>: initialise a falsy entry to 0, then increment. A table is in
  order when \<open>NaN\<close> stands only under property names of \<^verbatim>\<open>Object.prototype\<close>.
\<close>

definition tally_bump :: "route_table \<Rightarrow> string \<Rightarrow> route_table" where
  "tally_bump r0 k =
     (let r1 = (if \<not> truthy (get_prop r0 k) then set_prop r0 k (Num 0) else r0)
      in set_prop r1 k (post_increment (get_prop r1 k)))"

definition tallies_ok :: "route_table \<Rightarrow> bool" where
  "tallies_ok r = (\<forall>k. r k = Some NaN \<longrightarrow> k \<in> set object_prototype_names)"

subsection \<open>Example runs\<close>

text \<open>
  The instance the module exports (its metrics file is \<^verbatim>\<open>cloudsim-metrics.json\<close> in
  the working directory), constructed at time 0 with a write that succeeds.
\<close>

definition defaultOptions :: options where
  "defaultOptions =
     \<lparr>metricsFile = ''cloudsim-metrics.json'', updateInterval = 5000,
      enableConsoleOutput = True, optProjectName = ''Your-Existing-NextJS-App''\<rparr>"

definition defaultMonitor :: system where
  "defaultMonitor = start defaultOptions 0 0 False 0 True"

text \<open>
  Three calls of a wrapped handler that overlap: the second enters while the first is
  in flight and throws after 10 milliseconds, the third enters before the first returns;
  the first takes 30 milliseconds and the third 11.
\<close>

definition three_calls :: "event list" where
  "three_calls =
     [ApiEnter 0 (Some ''/api/users''), ApiEnter 5 (Some ''/api/orders''),
      ApiExit (5, ''/api/orders'') 15 (Inl ()), ApiEnter 20 (Some ''/api/users''),
      ApiExit (0, ''/api/users'') 30 (Inr ()), ApiExit (20, ''/api/users'') 31 (Inr ())]"


text \<open>
  Three calls of a wrapped handler, one after the other, of 10, 10 and 11 milliseconds;
  the first throws.
\<close>

definition sequential_calls :: "event list" where
  "sequential_calls =
     [ApiEnter 0 (Some ''/api/users''), ApiExit (0, ''/api/users'') 10 (Inl ()),
      ApiEnter 20 (Some ''/api/users''), ApiExit (20, ''/api/users'') 30 (Inr ()),
      ApiEnter 40 (Some ''/api/users''), ApiExit (40, ''/api/users'') 51 (Inr ())]"

text \<open>
  One reading of the resource probe and the clock, 7 seconds after the start, with no
  \<^verbatim>\<open>package.json\<close> and no \<^verbatim>\<open>.next\<close> directory. With these numbers and an update
  interval of 5000 every intermediate result in \<open>collectMetrics\<close> is a binary fraction
  that a double holds exactly (123456789 / 1048576 and its 100-fold; 0.25, 5, 1.25 and
  12.5), so rounding to a double changes none of them.
\<close>

definition tick_env :: env where
  "tick_env = \<lparr>rss = 123456789, cpuUser = 200000, cpuSystem = 50000, toDouble = (\<lambda>x. x),
     mathRandom = 1 / 7, nowTimestamp = 7000, nowUptime = 7000, nowBuild = 7000,
     packageJson = PkgMissing, nextBuild = NextMissing\<rparr>"

section \<open>Properties\<close>

subsection \<open>Effects of the methods on single fields\<close>

lemma foldl_plus_sum_list: "foldl (+) a xs = a + sum_list (xs::real list)"
  by (induction xs arbitrary: a) simp_all

lemma tl_snoc_nonempty: "999 < length xs \<Longrightarrow> tl (xs @ [x]) \<noteq> []"
  by (cases xs) auto

lemma updateMetrics_requestCount:
  "requestCount (metrics (updateMetrics m rt sc route ty)) = requestCount (metrics m) + 1"
  by (simp add: updateMetrics_def Let_def)

lemma updateMetrics_errorCount:
  "errorCount (metrics (updateMetrics m rt sc route ty)) =
     (if sc \<ge> 400 then errorCount (metrics m) + 1 else errorCount (metrics m))"
  by (simp add: updateMetrics_def Let_def)

lemma updateMetrics_successCount:
  "successCount (metrics (updateMetrics m rt sc route ty)) =
     (if sc \<ge> 400 then successCount (metrics m) else successCount (metrics m) + 1)"
  by (simp add: updateMetrics_def Let_def)

lemma updateMetrics_activeConnections:
  "activeConnections (metrics (updateMetrics m rt sc route ty)) = activeConnections (metrics m)"
  by (simp add: updateMetrics_def Let_def)

lemma updateMetrics_pages:
  "pages (metrics (updateMetrics m rt sc route ty)) =
     (let pg = pages (metrics m) in
      if ty = ''api'' then pg\<lparr>api := api pg + 1\<rparr>
      else if route = ''/'' \<or> route = ''/index'' then pg\<lparr>home := home pg + 1\<rparr>
      else pg\<lparr>other := other pg + 1\<rparr>)"
  by (simp add: updateMetrics_def Let_def)

lemma updateMetrics_requestTimes:
  "requestTimes (updateMetrics m rt sc route ty) =
     (if length (requestTimes m @ [rt]) > 1000 then tl (requestTimes m @ [rt])
      else requestTimes m @ [rt])"
  by (simp add: updateMetrics_def Let_def)

lemma updateMetrics_responseTime:
  "responseTime (metrics (updateMetrics m rt sc route ty)) =
     sum_list (requestTimes (updateMetrics m rt sc route ty)) /
       real (length (requestTimes (updateMetrics m rt sc route ty)))"
  by (simp add: updateMetrics_def Let_def foldl_plus_sum_list tl_snoc_nonempty)

lemma updateMetrics_metricsInterval:
  "metricsInterval (updateMetrics m rt sc route ty) = metricsInterval m"
  by (simp add: updateMetrics_def Let_def)

lemma trackCustomEvent_requestTimes:
  "requestTimes (trackCustomEvent m n d) =
     (case d of None \<Rightarrow> requestTimes m
      | Some x \<Rightarrow> if x \<noteq> 0
          then (if length (requestTimes m @ [x]) > 1000 then tl (requestTimes m @ [x])
                else requestTimes m @ [x])
          else requestTimes m)"
  by (simp add: trackCustomEvent_def Let_def split: option.splits)

lemma trackPageView_requestTimes: "requestTimes (trackPageView m p) = requestTimes m"
  by (simp add: trackPageView_def Let_def)

lemma updateBuildInfo_requestTimes: "requestTimes (updateBuildInfo m e) = requestTimes m"
  by (simp add: updateBuildInfo_def Let_def split: pkg_probe.splits next_probe.splits option.splits)

lemma collectMetrics_requestTimes: "requestTimes (collectMetrics m e) = requestTimes m"
  by (simp add: collectMetrics_def Let_def updateBuildInfo_requestTimes)

lemma enter_requestTimes: "requestTimes (fst (trackApiRoute_enter m t u)) = requestTimes m"
  by (simp add: trackApiRoute_enter_def Let_def)

lemma exit_requestTimes:
  "requestTimes (fst (trackApiRoute_exit m c t h)) =
     (if length (requestTimes m @ [t - fst c]) > 1000 then tl (requestTimes m @ [t - fst c])
      else requestTimes m @ [t - fst c])"
  by (cases h) (simp_all add: trackApiRoute_exit_def Let_def updateMetrics_requestTimes)

lemma cleanup_requestTimes: "requestTimes (fst (cleanup m t w)) = requestTimes m"
  by (simp add: cleanup_def Let_def)

lemma start_requestTimes: "requestTimes (mon (start opts n1 n2 p t w)) = []"
  by (simp add: start_def new_monitor_def initialize_def Let_def)

subsection \<open>The sample buffer\<close>

lemma last_n_short: "length xs \<le> n \<Longrightarrow> last_n n xs = xs"
  by (simp add: last_n_def)

lemma length_last_n: "length (last_n n xs) = min n (length xs)"
  by (simp add: last_n_def)

lemma last_n_append_last_n: "last_n n (last_n n xs @ ys) = last_n n (xs @ ys)"
proof (cases "length xs \<le> n")
  case True
  then show ?thesis by (simp add: last_n_def)
next
  case False
  then have "length xs + length ys - n = length ys + (length xs - n)" by arith
  with False show ?thesis by (simp add: last_n_def)
qed

lemma evict_last_n:
  assumes "length b \<le> 1000"
  shows "(if length (b @ [x]) > 1000 then tl (b @ [x]) else b @ [x]) = last_n 1000 (b @ [x])"
proof (cases "length b = 1000")
  case True
  then have "last_n 1000 (b @ [x]) = drop 1 (b @ [x])"
    by (simp add: last_n_def)
  also have "\<dots> = tl (b @ [x])"
    by (simp only: One_nat_def drop_Suc drop_0)
  finally show ?thesis using True by simp
next
  case False
  with assms show ?thesis by (simp add: last_n_def)
qed

lemma step_requestTimes:
  assumes "length (requestTimes (mon s)) \<le> 1000"
  shows "requestTimes (mon (step s ev)) = last_n 1000 (requestTimes (mon s) @ pushed_samples ev)"
proof (cases ev)
  case (ApiExit c t h)
  then show ?thesis
    using evict_last_n [OF assms, of "t - fst c"] by (simp add: exit_requestTimes)
next
  case (CustomEvent n d)
  show ?thesis
  proof (cases d)
    case None
    with CustomEvent assms show ?thesis
      by (simp add: trackCustomEvent_requestTimes last_n_short)
  next
    case (Some x)
    with CustomEvent assms evict_last_n [OF assms, of x] show ?thesis
      by (simp add: trackCustomEvent_requestTimes last_n_short)
  qed
next
  case (Tick e t w)
  with assms show ?thesis
    by (simp add: Let_def collectMetrics_requestTimes last_n_short)
next
  case (Signal t w)
  with assms show ?thesis
    by (simp add: split_def Let_def cleanup_requestTimes last_n_short)
qed (use assms in \<open>simp_all add: enter_requestTimes trackPageView_requestTimes last_n_short\<close>)

lemma run_requestTimes:
  "length (requestTimes (mon s)) \<le> 1000 \<Longrightarrow>
   requestTimes (mon (run s evs)) = last_n 1000 (requestTimes (mon s) @ samples_of_run evs)"
proof (induction evs arbitrary: s)
  case Nil
  then show ?case by (simp add: run_def samples_of_run_def last_n_short)
next
  case (Cons ev evs)
  have st: "requestTimes (mon (step s ev)) = last_n 1000 (requestTimes (mon s) @ pushed_samples ev)"
    using Cons.prems by (rule step_requestTimes)
  then have "length (requestTimes (mon (step s ev))) \<le> 1000"
    by (simp add: length_last_n)
  then have "requestTimes (mon (run (step s ev) evs)) =
      last_n 1000 (requestTimes (mon (step s ev)) @ samples_of_run evs)"
    by (rule Cons.IH)
  also have "\<dots> = last_n 1000 ((requestTimes (mon s) @ pushed_samples ev) @ samples_of_run evs)"
    unfolding st by (rule last_n_append_last_n)
  finally show ?case by (simp add: run_def samples_of_run_def)
qed

text \<open>
  C2. In every run of a new monitor the sample buffer \<open>requestTimes\<close> never holds more
  than 1000 samples, and it holds exactly the last 1000 of the samples pushed so far, in
  the order they were pushed (all of them while fewer than 1000 have been pushed): each
  push beyond the capacity evicts the oldest sample.
\<close>

theorem buffer_holds_last_1000:
  "length (requestTimes (mon (run (start opts n1 n2 p t w) evs))) \<le> 1000 \<and>
   requestTimes (mon (run (start opts n1 n2 p t w) evs)) = last_n 1000 (samples_of_run evs)"
proof -
  have "requestTimes (mon (run (start opts n1 n2 p t w) evs)) = last_n 1000 (samples_of_run evs)"
    using run_requestTimes [of "start opts n1 n2 p t w" evs] by (simp add: start_requestTimes)
  then show ?thesis by (simp add: length_last_n)
qed

subsection \<open>Further effects of the methods\<close>

lemma run_Nil: "run s [] = s"
  by (simp add: run_def)

lemma run_Cons: "run s (ev # evs) = run (step s ev) evs"
  by (simp add: run_def)

lemma updateBuildInfo_counters:
  "requestCount (metrics (updateBuildInfo m e)) = requestCount (metrics m)"
  "errorCount (metrics (updateBuildInfo m e)) = errorCount (metrics m)"
  "successCount (metrics (updateBuildInfo m e)) = successCount (metrics m)"
  "activeConnections (metrics (updateBuildInfo m e)) = activeConnections (metrics m)"
  "pages (metrics (updateBuildInfo m e)) = pages (metrics m)"
  "responseTime (metrics (updateBuildInfo m e)) = responseTime (metrics m)"
  "metricsInterval (updateBuildInfo m e) = metricsInterval m"
  by (simp_all add: updateBuildInfo_def Let_def
        split: pkg_probe.splits next_probe.splits option.splits)

lemma collectMetrics_counters:
  "requestCount (metrics (collectMetrics m e)) = requestCount (metrics m)"
  "errorCount (metrics (collectMetrics m e)) = errorCount (metrics m)"
  "successCount (metrics (collectMetrics m e)) = successCount (metrics m)"
  "activeConnections (metrics (collectMetrics m e)) = activeConnections (metrics m)"
  "pages (metrics (collectMetrics m e)) = pages (metrics m)"
  "responseTime (metrics (collectMetrics m e)) = responseTime (metrics m)"
  "metricsInterval (collectMetrics m e) = metricsInterval m"
  by (simp_all add: collectMetrics_def Let_def updateBuildInfo_counters)

lemma trackPageView_counters:
  "requestCount (metrics (trackPageView m p)) = requestCount (metrics m)"
  "errorCount (metrics (trackPageView m p)) = errorCount (metrics m)"
  "successCount (metrics (trackPageView m p)) = successCount (metrics m)"
  "activeConnections (metrics (trackPageView m p)) = activeConnections (metrics m)"
  "responseTime (metrics (trackPageView m p)) = responseTime (metrics m)"
  "metricsInterval (trackPageView m p) = metricsInterval m"
  by (simp_all add: trackPageView_def Let_def)

lemma trackCustomEvent_counters:
  "requestCount (metrics (trackCustomEvent m n d)) = requestCount (metrics m)"
  "errorCount (metrics (trackCustomEvent m n d)) = errorCount (metrics m)"
  "successCount (metrics (trackCustomEvent m n d)) = successCount (metrics m)"
  "activeConnections (metrics (trackCustomEvent m n d)) = activeConnections (metrics m)"
  "pages (metrics (trackCustomEvent m n d)) = pages (metrics m)"
  "responseTime (metrics (trackCustomEvent m n d)) = responseTime (metrics m)"
  "metricsInterval (trackCustomEvent m n d) = metricsInterval m"
  by (simp_all add: trackCustomEvent_def Let_def)

lemma enter_counters:
  "requestCount (metrics (fst (trackApiRoute_enter m t u))) = requestCount (metrics m)"
  "errorCount (metrics (fst (trackApiRoute_enter m t u))) = errorCount (metrics m)"
  "successCount (metrics (fst (trackApiRoute_enter m t u))) = successCount (metrics m)"
  "activeConnections (metrics (fst (trackApiRoute_enter m t u))) =
     activeConnections (metrics m) + 1"
  "pages (metrics (fst (trackApiRoute_enter m t u))) = pages (metrics m)"
  "responseTime (metrics (fst (trackApiRoute_enter m t u))) = responseTime (metrics m)"
  "metricsInterval (fst (trackApiRoute_enter m t u)) = metricsInterval m"
  by (simp_all add: trackApiRoute_enter_def Let_def)

lemma exit_fst:
  "fst (trackApiRoute_exit m c t h) =
     (let m1 = updateMetrics m (t - fst c) (case h of Inl error \<Rightarrow> 500 | Inr result \<Rightarrow> 200)
                 (snd c) ''api''
      in m1\<lparr>metrics := (metrics m1)\<lparr>activeConnections :=
                max 0 (activeConnections (metrics m1) - 1)\<rparr>\<rparr>)"
  by (cases h) (simp_all add: trackApiRoute_exit_def Let_def)

lemma exit_snd: "snd (trackApiRoute_exit m c t h) = h"
  by (cases h) (simp_all add: trackApiRoute_exit_def Let_def)

lemma exit_counters:
  "requestCount (metrics (fst (trackApiRoute_exit m c t h))) = requestCount (metrics m) + 1"
  "errorCount (metrics (fst (trackApiRoute_exit m c t h))) =
     (case h of Inl error \<Rightarrow> errorCount (metrics m) + 1 | Inr result \<Rightarrow> errorCount (metrics m))"
  "successCount (metrics (fst (trackApiRoute_exit m c t h))) =
     (case h of Inl error \<Rightarrow> successCount (metrics m)
      | Inr result \<Rightarrow> successCount (metrics m) + 1)"
  "activeConnections (metrics (fst (trackApiRoute_exit m c t h))) =
     max 0 (activeConnections (metrics m) - 1)"
  "metricsInterval (fst (trackApiRoute_exit m c t h)) = metricsInterval m"
  by (simp_all add: exit_fst Let_def updateMetrics_requestCount updateMetrics_errorCount
        updateMetrics_successCount updateMetrics_activeConnections
        updateMetrics_metricsInterval split: sum.splits)

lemma cleanup_counters:
  "metrics (fst (cleanup m t w)) = metrics m"
  "metricsInterval (fst (cleanup m t w)) = False"
  by (simp_all add: cleanup_def Let_def)

lemma start_counters:
  "requestCount (metrics (mon (start opts n1 n2 p t w))) = 0"
  "errorCount (metrics (mon (start opts n1 n2 p t w))) = 0"
  "successCount (metrics (mon (start opts n1 n2 p t w))) = 0"
  "activeConnections (metrics (mon (start opts n1 n2 p t w))) = 0"
  "responseTime (metrics (mon (start opts n1 n2 p t w))) = 0"
  "metricsInterval (mon (start opts n1 n2 p t w))"
  by (simp_all add: start_def new_monitor_def initialize_def initial_metrics_def Let_def)

lemma persist_None: "persist d None = d"
  by (simp add: persist_def)

lemma persist_Some: "persist d (Some out) = d @ [out]"
  by (simp add: persist_def)

lemma writeMetricsFile_failed: "writeMetricsFile m t False = None"
  by (simp add: writeMetricsFile_def Let_def)

lemma writeMetricsFile_written:
  "\<exists>out. writeMetricsFile m t True = Some out \<and> snapshot out = metrics m"
  by (simp add: writeMetricsFile_def Let_def)


lemma writeMetricsFile_the:
  "writeMetricsFile m t True = Some (the (writeMetricsFile m t True))"
  "snapshot (the (writeMetricsFile m t True)) = metrics m"
  by (simp_all add: writeMetricsFile_def Let_def)

lemma three_calls_counts:
  "in_flight 0 three_calls = Some 0"
  "count_where is_call three_calls = 3"
  "count_where is_success three_calls = 2"
  "count_where is_failure three_calls = 1"
  by (simp_all add: three_calls_def count_where_def)

subsection \<open>Counting completed calls\<close>

lemma step_requestCount:
  "requestCount (metrics (mon (step s ev))) =
     requestCount (metrics (mon s)) + (if is_success ev \<or> is_failure ev then 1 else 0)"
proof (cases ev)
  case (ApiExit c t h)
  then show ?thesis by (cases h) (simp_all add: exit_counters)
qed (simp_all add: enter_counters trackPageView_counters trackCustomEvent_counters
       collectMetrics_counters cleanup_counters Let_def split_def)

lemma step_successCount:
  "successCount (metrics (mon (step s ev))) =
     successCount (metrics (mon s)) + (if is_success ev then 1 else 0)"
proof (cases ev)
  case (ApiExit c t h)
  then show ?thesis by (cases h) (simp_all add: exit_counters)
qed (simp_all add: enter_counters trackPageView_counters trackCustomEvent_counters
       collectMetrics_counters cleanup_counters Let_def split_def)

lemma step_errorCount:
  "errorCount (metrics (mon (step s ev))) =
     errorCount (metrics (mon s)) + (if is_failure ev then 1 else 0)"
proof (cases ev)
  case (ApiExit c t h)
  then show ?thesis by (cases h) (simp_all add: exit_counters)
qed (simp_all add: enter_counters trackPageView_counters trackCustomEvent_counters
       collectMetrics_counters cleanup_counters Let_def split_def)

lemma step_activeConnections:
  "activeConnections (metrics (mon (step s ev))) =
     (case ev of
        ApiEnter t u \<Rightarrow> activeConnections (metrics (mon s)) + 1
      | ApiExit c t h \<Rightarrow> max 0 (activeConnections (metrics (mon s)) - 1)
      | _ \<Rightarrow> activeConnections (metrics (mon s)))"
  by (cases ev) (simp_all add: enter_counters exit_counters trackPageView_counters
       trackCustomEvent_counters collectMetrics_counters cleanup_counters Let_def split_def)

lemma run_requestCount:
  "requestCount (metrics (mon (run s evs))) =
     requestCount (metrics (mon s)) + count_where is_success evs + count_where is_failure evs"
proof (induction evs arbitrary: s)
  case Nil
  show ?case by (simp add: run_Nil count_where_def)
next
  case (Cons ev evs)
  have "\<not> (is_success ev \<and> is_failure ev)"
    by (cases ev rule: is_success.cases) simp_all
  then show ?case
    by (auto simp: run_Cons Cons.IH step_requestCount count_where_def simp del: step.simps)
qed

lemma run_successCount:
  "successCount (metrics (mon (run s evs))) =
     successCount (metrics (mon s)) + count_where is_success evs"
  by (induction evs arbitrary: s) (simp_all add: run_Nil run_Cons step_successCount count_where_def del: step.simps)

lemma run_errorCount:
  "errorCount (metrics (mon (run s evs))) =
     errorCount (metrics (mon s)) + count_where is_failure evs"
  by (induction evs arbitrary: s) (simp_all add: run_Nil run_Cons step_errorCount count_where_def del: step.simps)

lemma in_flight_balance:
  "in_flight k evs = Some j \<Longrightarrow>
   k + count_where is_call evs = j + count_where is_success evs + count_where is_failure evs"
proof (induction k evs rule: in_flight.induct)
  case (3 k c t h evs)
  then show ?case by (cases h) (auto simp: count_where_def split: if_splits)
qed (simp_all add: count_where_def)

lemma run_activeConnections:
  "in_flight k evs = Some j \<Longrightarrow> int k \<le> activeConnections (metrics (mon s)) \<Longrightarrow>
   activeConnections (metrics (mon (run s evs))) =
     activeConnections (metrics (mon s)) - int k + int j"
proof (induction k evs arbitrary: s rule: in_flight.induct)
  case (1 k)
  then show ?case by (simp add: run_Nil)
next
  case (2 k t u evs)
  have "int (k + 1) \<le> activeConnections (metrics (mon (step s (ApiEnter t u))))"
    using "2.prems" by (simp add: step_activeConnections del: step.simps)
  with "2.prems" "2.IH" [of "step s (ApiEnter t u)"] show ?case
    by (simp add: run_Cons step_activeConnections del: step.simps)
next
  case (3 k c t h evs)
  from "3.prems" have k: "k \<noteq> 0" and fl: "in_flight (k - 1) evs = Some j"
    by (auto split: if_splits)
  from k "3.prems" have ac: "max 0 (activeConnections (metrics (mon s)) - 1) =
      activeConnections (metrics (mon s)) - 1" by simp
  have "int (k - 1) \<le> activeConnections (metrics (mon (step s (ApiExit c t h))))"
    using k "3.prems" by (simp add: step_activeConnections del: step.simps)
  from "3.IH" [OF k fl this] k show ?case
    by (simp add: run_Cons step_activeConnections ac del: step.simps)
next
  case (4 k p evs)
  from "4.prems" "4.IH" [of "step s (PageView p)"] show ?case
    by (simp add: run_Cons step_activeConnections del: step.simps)
next
  case (5 k n d evs)
  from "5.prems" "5.IH" [of "step s (CustomEvent n d)"] show ?case
    by (simp add: run_Cons step_activeConnections del: step.simps)
next
  case (6 k e t w evs)
  from "6.prems" "6.IH" [of "step s (Tick e t w)"] show ?case
    by (simp add: run_Cons step_activeConnections del: step.simps)
next
  case (7 k t w evs)
  from "7.prems" "7.IH" [of "step s (Signal t w)"] show ?case
    by (simp add: run_Cons step_activeConnections del: step.simps)
qed

text \<open>
  C1. Take any run of a new monitor in which every call of a wrapped handler that
  entered has also completed, in any interleaving with each other and with page views,
  custom events, timer ticks and signals. If N calls entered, S of them returned and F
  threw, then S + F = N and the final state has requestCount = N, successCount = S,
  errorCount = F and activeConnections = 0.
\<close>

theorem completed_calls_are_counted:
  assumes "in_flight 0 evs = Some 0"
  shows "count_where is_success evs + count_where is_failure evs = count_where is_call evs \<and>
    requestCount (metrics (mon (run (start opts n1 n2 p t w) evs))) = count_where is_call evs \<and>
    successCount (metrics (mon (run (start opts n1 n2 p t w) evs))) = count_where is_success evs \<and>
    errorCount (metrics (mon (run (start opts n1 n2 p t w) evs))) = count_where is_failure evs \<and>
    activeConnections (metrics (mon (run (start opts n1 n2 p t w) evs))) = 0"
proof -
  have bal: "count_where is_call evs = count_where is_success evs + count_where is_failure evs"
    using in_flight_balance [OF assms] by simp
  have "activeConnections (metrics (mon (run (start opts n1 n2 p t w) evs))) = 0"
    using run_activeConnections [OF assms, of "start opts n1 n2 p t w"]
    by (simp add: start_counters)
  with bal show ?thesis
    by (simp add: run_requestCount run_successCount run_errorCount start_counters)
qed

text \<open>
  The three calls of the example run: 3 requests, 2 successes, 1 error, none in flight.
\<close>

theorem completed_calls_are_counted_witness:
  "in_flight 0 three_calls = Some 0 \<and>
   requestCount (metrics (mon (run defaultMonitor three_calls))) = 3 \<and>
   successCount (metrics (mon (run defaultMonitor three_calls))) = 2 \<and>
   errorCount (metrics (mon (run defaultMonitor three_calls))) = 1 \<and>
   activeConnections (metrics (mon (run defaultMonitor three_calls))) = 0"
proof -
  have h: "in_flight 0 three_calls = Some 0"
    by (simp add: three_calls_def)
  from completed_calls_are_counted [OF h, of defaultOptions 0 0 False 0 True] h show ?thesis
    by (simp add: defaultMonitor_def three_calls_counts)
qed

subsection \<open>The classifier and the page counters\<close>

lemma startsWith_prefix: "startsWith s p = prefix p s"
proof
  assume "startsWith s p"
  then have "s = p @ drop (length p) s"
    by (metis startsWith_def append_take_drop_id)
  then show "prefix p s"
    by (rule prefixI)
next
  assume "prefix p s"
  then show "startsWith s p"
    by (auto simp: startsWith_def prefix_def)
qed

text \<open>
  C4, as amended. \<open>classifyPage\<close> returns home exactly for the two route identifiers
  \<^verbatim>\<open>/\<close> and \<^verbatim>\<open>/index\<close>, api exactly for those with the prefix \<^verbatim>\<open>/api/\<close>, and other for
  all the rest; in particular \<^verbatim>\<open>/\<close> is home, \<^verbatim>\<open>/api/users\<close> is api and \<^verbatim>\<open>/about\<close> is
  other.
\<close>

theorem classifyPage_cases:
  "(classifyPage r = Home \<longleftrightarrow> r = ''/'' \<or> r = ''/index'') \<and>
   (classifyPage r = Api \<longleftrightarrow> prefix ''/api/'' r) \<and>
   (classifyPage r = Other \<longleftrightarrow> r \<noteq> ''/'' \<and> r \<noteq> ''/index'' \<and> \<not> prefix ''/api/'' r) \<and>
   classifyPage ''/'' = Home \<and> classifyPage ''/api/users'' = Api \<and>
   classifyPage ''/about'' = Other"
  by (auto simp: classifyPage_def startsWith_prefix)

text \<open>
  The route identifier \<^verbatim>\<open>/index\<close> is not the root path and has no \<^verbatim>\<open>/api/\<close> prefix, yet
  it is classified as home, not as other.
\<close>

theorem classifyPage_index_counterexample:
  "''/index'' \<noteq> ''/'' \<and> \<not> prefix ''/api/'' ''/index'' \<and> classifyPage ''/index'' = Home"
  by (simp add: classifyPage_def)

lemma trackPageView_pages:
  "pages (metrics (trackPageView m p)) =
     (case classifyPage p of
        Home \<Rightarrow> (pages (metrics m))\<lparr>home := home (pages (metrics m)) + 1\<rparr>
      | Api \<Rightarrow> (pages (metrics m))\<lparr>api := api (pages (metrics m)) + 1\<rparr>
      | Other \<Rightarrow> (pages (metrics m))\<lparr>other := other (pages (metrics m)) + 1\<rparr>)"
  by (simp add: trackPageView_def Let_def)

lemma exit_pages:
  "pages (metrics (fst (trackApiRoute_exit m c t h))) =
     (pages (metrics m))\<lparr>api := api (pages (metrics m)) + 1\<rparr>"
  by (simp add: exit_fst Let_def updateMetrics_pages)

text \<open>
  C7, as amended. A page view increments the page counter that \<open>classifyPage\<close> names
  for the page, by exactly 1, and leaves the other two unchanged. A call through the
  API-route wrapper increments \<open>pages.api\<close> by exactly 1 when it completes, whatever
  its route identifier and whether the handler returned or threw, and leaves
  \<open>pages.home\<close> and \<open>pages.other\<close> unchanged; entering the call changes no page
  counter.
\<close>

theorem page_counter_incremented:
  "home (pages (metrics (trackPageView m p))) =
     home (pages (metrics m)) + (if classifyPage p = Home then 1 else 0) \<and>
   api (pages (metrics (trackPageView m p))) =
     api (pages (metrics m)) + (if classifyPage p = Api then 1 else 0) \<and>
   other (pages (metrics (trackPageView m p))) =
     other (pages (metrics m)) + (if classifyPage p = Other then 1 else 0) \<and>
   pages (metrics (fst (trackApiRoute_enter m t0 u))) = pages (metrics m) \<and>
   home (pages (metrics (fst (trackApiRoute_exit m c t h)))) = home (pages (metrics m)) \<and>
   api (pages (metrics (fst (trackApiRoute_exit m c t h)))) = api (pages (metrics m)) + 1 \<and>
   other (pages (metrics (fst (trackApiRoute_exit m c t h)))) = other (pages (metrics m))"
  by (cases "classifyPage p") (simp_all add: trackPageView_pages exit_pages enter_counters)

text \<open>
  A call through the wrapper with \<^verbatim>\<open>req.url = "/api"\<close>: the classifier names other for
  this route, which lacks the prefix \<^verbatim>\<open>/api/\<close>, but the call counts under api and other
  stays 0.
\<close>

theorem api_wrapper_ignores_classifier_counterexample:
  "classifyPage ''/api'' = Other \<and>
   snd (trackApiRoute_enter (mon defaultMonitor) 0 (Some ''/api'')) = (0, ''/api'') \<and>
   other (pages (metrics (mon (run defaultMonitor
      [ApiEnter 0 (Some ''/api''), ApiExit (0, ''/api'') 7 (Inr ())])))) = 0 \<and>
   api (pages (metrics (mon (run defaultMonitor
      [ApiEnter 0 (Some ''/api''), ApiExit (0, ''/api'') 7 (Inr ())])))) = 1"
  by (simp add: classifyPage_def startsWith_def run_def trackApiRoute_enter_def exit_pages
        defaultMonitor_def start_def new_monitor_def initialize_def initial_metrics_def Let_def)

subsection \<open>A handler that throws\<close>

text \<open>
  C5. When the wrapped handler throws, the wrapper's second step records the failure
  and rethrows the same error: its outcome is the handler's error itself;
  requestCount and errorCount grow by 1 and successCount does not change; the elapsed
  time is pushed into the buffer (as its last sample, the oldest being evicted beyond
  1000); and activeConnections is released, to \<open>max 0 (activeConnections - 1)\<close>, so that
  the whole call, entered and completed, leaves the gauge where it was (at 0 if it was
  negative).
\<close>

theorem failure_is_recorded_and_rethrown:
  "snd (trackApiRoute_exit m c t (Inl err :: 'e + 'r)) = Inl err \<and>
   requestCount (metrics (fst (trackApiRoute_exit m c t (Inl err :: 'e + 'r)))) =
     requestCount (metrics m) + 1 \<and>
   errorCount (metrics (fst (trackApiRoute_exit m c t (Inl err :: 'e + 'r)))) =
     errorCount (metrics m) + 1 \<and>
   successCount (metrics (fst (trackApiRoute_exit m c t (Inl err :: 'e + 'r)))) =
     successCount (metrics m) \<and>
   requestTimes (fst (trackApiRoute_exit m c t (Inl err :: 'e + 'r))) =
     (if length (requestTimes m @ [t - fst c]) > 1000 then tl (requestTimes m @ [t - fst c])
      else requestTimes m @ [t - fst c]) \<and>
   last (requestTimes (fst (trackApiRoute_exit m c t (Inl err :: 'e + 'r)))) = t - fst c \<and>
   activeConnections (metrics (fst (trackApiRoute_exit m c t (Inl err :: 'e + 'r)))) =
     max 0 (activeConnections (metrics m) - 1) \<and>
   activeConnections (metrics (fst (trackApiRoute_exit
       (fst (trackApiRoute_enter m t0 u)) c t (Inl err :: 'e + 'r)))) =
     max 0 (activeConnections (metrics m))"
proof -
  have "last (if length (requestTimes m @ [t - fst c]) > 1000
              then tl (requestTimes m @ [t - fst c]) else requestTimes m @ [t - fst c]) = t - fst c"
    by (simp add: last_tl tl_snoc_nonempty)
  then show ?thesis
    by (simp add: exit_snd exit_counters exit_requestTimes enter_counters)
qed

subsection \<open>The average response time\<close>

lemma updateMetrics_buffer_mean:
  "responseTime (metrics (updateMetrics m rt sc route ty)) =
     buffer_mean (requestTimes (updateMetrics m rt sc route ty))"
proof -
  have "requestTimes (updateMetrics m rt sc route ty) \<noteq> []"
    by (simp add: updateMetrics_requestTimes tl_snoc_nonempty)
  then show ?thesis
    by (simp add: buffer_mean_def updateMetrics_responseTime)
qed

lemma exit_responseTime:
  "responseTime (metrics (fst (trackApiRoute_exit m c t h))) =
     buffer_mean (requestTimes (fst (trackApiRoute_exit m c t h)))"
proof -
  let ?m1 = "updateMetrics m (t - fst c) (case h of Inl error \<Rightarrow> 500 | Inr result \<Rightarrow> 200)
      (snd c) ''api''"
  have "responseTime (metrics (fst (trackApiRoute_exit m c t h))) = responseTime (metrics ?m1)"
    by (simp add: exit_fst Let_def)
  moreover have "requestTimes (fst (trackApiRoute_exit m c t h)) = requestTimes ?m1"
    by (simp add: exit_fst Let_def)
  ultimately show ?thesis
    by (simp only: updateMetrics_buffer_mean)
qed

lemma step_keeps_mean:
  assumes "responseTime (metrics (mon s)) = buffer_mean (requestTimes (mon s))"
    and "\<not> timed_custom ev"
  shows "responseTime (metrics (mon (step s ev))) = buffer_mean (requestTimes (mon (step s ev)))"
proof (cases ev)
  case (ApiExit c t h)
  then show ?thesis by (simp add: exit_responseTime)
next
  case (CustomEvent n d)
  with assms show ?thesis
    by (cases d) (simp_all add: trackCustomEvent_counters trackCustomEvent_requestTimes)
qed (use assms in \<open>simp_all add: enter_counters enter_requestTimes trackPageView_counters
       trackPageView_requestTimes collectMetrics_counters collectMetrics_requestTimes
       cleanup_counters cleanup_requestTimes Let_def split_def\<close>)

lemma run_keeps_mean:
  "(b \<Longrightarrow> responseTime (metrics (mon s)) = buffer_mean (requestTimes (mon s))) \<Longrightarrow>
   mean_current b evs \<Longrightarrow>
   responseTime (metrics (mon (run s evs))) = buffer_mean (requestTimes (mon (run s evs)))"
proof (induction b evs arbitrary: s rule: mean_current.induct)
  case (1 b)
  then show ?case by (simp add: run_Nil)
next
  case (2 b perfNow url evs)
  have "b \<Longrightarrow> responseTime (metrics (mon (step s (ApiEnter perfNow url)))) =
      buffer_mean (requestTimes (mon (step s (ApiEnter perfNow url))))"
    using "2.prems"(1) by (intro step_keeps_mean) simp_all
  with "2.prems"(2) "2.IH" [of "step s (ApiEnter perfNow url)"] show ?case
    by (simp add: run_Cons del: step.simps)
next
  case (3 b closure perfNow handled evs)
  have "responseTime (metrics (mon (step s (ApiExit closure perfNow handled)))) =
      buffer_mean (requestTimes (mon (step s (ApiExit closure perfNow handled))))"
    by (simp add: exit_responseTime)
  with "3.prems"(2) "3.IH" [of "step s (ApiExit closure perfNow handled)"] show ?case
    by (simp add: run_Cons del: step.simps)
next
  case (4 b pageName evs)
  have "b \<Longrightarrow> responseTime (metrics (mon (step s (PageView pageName)))) =
      buffer_mean (requestTimes (mon (step s (PageView pageName))))"
    using "4.prems"(1) by (intro step_keeps_mean) simp_all
  with "4.prems"(2) "4.IH" [of "step s (PageView pageName)"] show ?case
    by (simp add: run_Cons del: step.simps)
next
  case (5 b eventName duration evs)
  have "b \<and> \<not> timed_custom (CustomEvent eventName duration) \<Longrightarrow>
      responseTime (metrics (mon (step s (CustomEvent eventName duration)))) =
      buffer_mean (requestTimes (mon (step s (CustomEvent eventName duration))))"
    using "5.prems"(1) by (intro step_keeps_mean) simp_all
  with "5.prems"(2) "5.IH" [of "step s (CustomEvent eventName duration)"] show ?case
    by (simp add: run_Cons del: step.simps)
next
  case (6 b e isoNow writeOk evs)
  have "b \<Longrightarrow> responseTime (metrics (mon (step s (Tick e isoNow writeOk)))) =
      buffer_mean (requestTimes (mon (step s (Tick e isoNow writeOk))))"
    using "6.prems"(1) by (intro step_keeps_mean) simp_all
  with "6.prems"(2) "6.IH" [of "step s (Tick e isoNow writeOk)"] show ?case
    by (simp add: run_Cons del: step.simps)
next
  case (7 b isoNow writeOk evs)
  have "b \<Longrightarrow> responseTime (metrics (mon (step s (Signal isoNow writeOk)))) =
      buffer_mean (requestTimes (mon (step s (Signal isoNow writeOk))))"
    using "7.prems"(1) by (intro step_keeps_mean) simp_all
  with "7.prems"(2) "7.IH" [of "step s (Signal isoNow writeOk)"] show ?case
    by (simp add: run_Cons del: step.simps)
qed




subsection \<open>The rates in the written record\<close>

text \<open>
  C6. In a record that \<open>writeMetricsFile\<close> has written, successRate is 100 and errorRate
  is 0 when requestCount is 0; when requestCount is positive, errorRate is
  errorCount / requestCount \<times> 100 and successRate is successCount / requestCount \<times> 100.
\<close>

theorem rates_in_persisted_record:
  assumes "writeMetricsFile m t w = Some out"
  shows "(requestCount (snapshot out) = 0 \<longrightarrow> successRate out = 100 \<and> errorRate out = 0) \<and>
    (requestCount (snapshot out) > 0 \<longrightarrow>
       errorRate out =
         (real (errorCount (snapshot out)) / real (requestCount (snapshot out))) * 100 \<and>
       successRate out =
         (real (successCount (snapshot out)) / real (requestCount (snapshot out))) * 100)"
  using assms by (auto simp: writeMetricsFile_def Let_def split: if_splits)

text \<open>
  The record of a new monitor, and the record after the three calls of the example run.
\<close>

theorem rates_in_persisted_record_witness:
  "requestCount (snapshot (the (writeMetricsFile (mon defaultMonitor) 1 True))) = 0 \<and>
   successRate (the (writeMetricsFile (mon defaultMonitor) 1 True)) = 100 \<and>
   errorRate (the (writeMetricsFile (mon defaultMonitor) 1 True)) = 0 \<and>
   requestCount (snapshot (the (writeMetricsFile (mon (run defaultMonitor three_calls)) 60 True)))
     = 3 \<and>
   errorRate (the (writeMetricsFile (mon (run defaultMonitor three_calls)) 60 True)) = 100 / 3 \<and>
   successRate (the (writeMetricsFile (mon (run defaultMonitor three_calls)) 60 True)) = 200 / 3"
proof -
  have a: "requestCount (snapshot (the (writeMetricsFile (mon defaultMonitor) 1 True))) = 0"
    by (simp add: writeMetricsFile_the(2) defaultMonitor_def start_counters)
  have b: "snapshot (the (writeMetricsFile (mon (run defaultMonitor three_calls)) 60 True)) =
      metrics (mon (run defaultMonitor three_calls))"
    by (rule writeMetricsFile_the(2))
  have c: "requestCount (metrics (mon (run defaultMonitor three_calls))) = 3"
      "errorCount (metrics (mon (run defaultMonitor three_calls))) = 1"
      "successCount (metrics (mon (run defaultMonitor three_calls))) = 2"
    by (simp_all add: defaultMonitor_def run_requestCount run_errorCount run_successCount
          start_counters three_calls_counts)
  from rates_in_persisted_record [OF writeMetricsFile_the(1) [of "mon defaultMonitor" 1]]
    rates_in_persisted_record
      [OF writeMetricsFile_the(1) [of "mon (run defaultMonitor three_calls)" 60]]
    a b c
  show ?thesis by simp
qed

subsection \<open>Shutdown\<close>

lemma step_Signal_mon:
  "metrics (mon (step s (Signal t w))) = metrics (mon s)"
  "metricsInterval (mon (step s (Signal t w))) = False"
  by (simp_all add: split_def Let_def cleanup_counters)

lemma step_Signal_disk:
  "disk (step s (Signal t False)) = disk s"
  "\<exists>out. disk (step s (Signal t True)) = disk s @ [out] \<and> snapshot out = metrics (mon s)"
proof -
  show "disk (step s (Signal t False)) = disk s"
    by (simp add: split_def cleanup_def Let_def writeMetricsFile_failed persist_None)
  obtain out where out: "writeMetricsFile (fst (cleanup (mon s) t True)) t True = Some out"
      "snapshot out = metrics (fst (cleanup (mon s) t True))"
    using writeMetricsFile_written by blast
  have "snd (cleanup (mon s) t True) = writeMetricsFile (fst (cleanup (mon s) t True)) t True"
    by (simp add: cleanup_def Let_def)
  with out have "disk (step s (Signal t True)) = disk s @ [out]"
    by (simp add: split_def Let_def persist_Some)
  with out show "\<exists>out. disk (step s (Signal t True)) = disk s @ [out] \<and>
      snapshot out = metrics (mon s)"
    by (auto simp: cleanup_counters)
qed

lemma step_disarmed:
  assumes "\<not> metricsInterval (mon s)" and "\<not> is_signal ev"
  shows "disk (step s ev) = disk s \<and> \<not> metricsInterval (mon (step s ev))"
  using assms
  by (cases ev) (simp_all add: enter_counters exit_counters trackPageView_counters
       trackCustomEvent_counters)

lemma run_disarmed:
  "\<not> metricsInterval (mon s) \<Longrightarrow> \<forall>ev \<in> set evs. \<not> is_signal ev \<Longrightarrow>
   disk (run s evs) = disk s \<and> \<not> metricsInterval (mon (run s evs))"
proof (induction evs arbitrary: s)
  case Nil
  then show ?case by (simp add: run_Nil)
next
  case (Cons ev evs)
  from Cons.prems have "disk (step s ev) = disk s \<and> \<not> metricsInterval (mon (step s ev))"
    by (intro step_disarmed) simp_all
  with Cons.prems Cons.IH [of "step s ev"] show ?case
    by (simp add: run_Cons del: step.simps)
qed

text \<open>
  C8, as amended. \<open>cleanup\<close> disarms the periodic timer and makes exactly one write
  attempt, synchronously, of the record that \<open>writeMetricsFile\<close> builds from the current
  state: when the write succeeds, exactly one record is added to the file's history and
  it carries the metrics as they stand, every completed observation counted; when the
  write fails, nothing is written. Afterwards the timer stays disarmed and no request,
  page view, custom event or timer tick writes a record.
\<close>

theorem cleanup_writes_once_and_disarms:
  assumes "\<forall>ev \<in> set evs. \<not> is_signal ev"
  shows "\<not> metricsInterval (fst (cleanup m t w)) \<and>
    snd (cleanup m t w) = writeMetricsFile m t w \<and>
    disk (step s (Signal t False)) = disk s \<and>
    (\<exists>out. disk (step s (Signal t True)) = disk s @ [out] \<and> snapshot out = metrics (mon s)) \<and>
    disk (run (step s (Signal t w)) evs) = disk (step s (Signal t w)) \<and>
    \<not> metricsInterval (mon (run (step s (Signal t w)) evs))"
proof -
  have "snd (cleanup m t w) = writeMetricsFile m t w"
    by (simp add: cleanup_def Let_def writeMetricsFile_def)
  moreover have "\<not> metricsInterval (mon (step s (Signal t w)))"
    by (simp only: step_Signal_mon) simp
  from run_disarmed [OF this assms]
  have "disk (run (step s (Signal t w)) evs) = disk (step s (Signal t w)) \<and>
      \<not> metricsInterval (mon (run (step s (Signal t w)) evs))" .
  ultimately show ?thesis
    using step_Signal_disk [of s t] by (simp add: cleanup_counters del: step.simps)
qed

text \<open>
  After a shutdown signal whose write succeeds, the file has one more record, and a page
  view and a timer tick change neither the file nor the disarmed timer.
\<close>

theorem cleanup_writes_once_and_disarms_witness:
  "list_all (\<lambda>ev. \<not> is_signal ev) [PageView ''/about'', Tick tick_env 5000 True] \<and>
   length (disk (run (step defaultMonitor (Signal 5 True))
     [PageView ''/about'', Tick tick_env 5000 True])) = length (disk defaultMonitor) + 1 \<and>
   \<not> metricsInterval (mon (run (step defaultMonitor (Signal 5 True))
     [PageView ''/about'', Tick tick_env 5000 True]))"
proof -
  have h: "\<forall>ev \<in> set [PageView ''/about'', Tick tick_env 5000 True]. \<not> is_signal ev"
    by simp
  from cleanup_writes_once_and_disarms [OF h, of "mon defaultMonitor" 5 True defaultMonitor]
  obtain out where "disk (step defaultMonitor (Signal 5 True)) = disk defaultMonitor @ [out]"
    and "disk (run (step defaultMonitor (Signal 5 True))
        [PageView ''/about'', Tick tick_env 5000 True]) = disk (step defaultMonitor (Signal 5 True))"
    and "\<not> metricsInterval (mon (run (step defaultMonitor (Signal 5 True))
        [PageView ''/about'', Tick tick_env 5000 True]))"
    by blast
  then show ?thesis by simp
qed

text \<open>
  When the write fails, the shutdown persists no record; and a second signal, after the
  first shutdown has completed, writes a further record.
\<close>

theorem shutdown_counterexample:
  "disk (step defaultMonitor (Signal 1 False)) = disk defaultMonitor \<and>
   length (disk (run defaultMonitor [Signal 1 True])) =
     length (disk defaultMonitor) + 1 \<and>
   length (disk (run defaultMonitor [Signal 1 True, Signal 2 True])) =
     length (disk defaultMonitor) + 2"
proof -
  obtain o1 where "disk (step defaultMonitor (Signal 1 True)) =
      disk defaultMonitor @ [o1]"
    using step_Signal_disk(2) by blast
  moreover obtain o2 where
    "disk (step (step defaultMonitor (Signal 1 True))
        (Signal 2 True)) =
      disk (step defaultMonitor (Signal 1 True)) @ [o2]"
    using step_Signal_disk(2) by blast
  ultimately show ?thesis
    by (simp add: run_def step_Signal_disk(1) del: step.simps)
qed

subsection \<open>Rounding\<close>

lemma Math_round_of_int: "Math_round (of_int k) = of_int k"
proof -
  have "\<lfloor>(of_int k :: real) + 1 / 2\<rfloor> = k"
    by (rule floor_unique) simp_all
  then show ?thesis by (simp add: Math_round_def)
qed

lemma two_decimals_rounded: "two_decimals (Math_round x / 100)"
proof -
  obtain k :: int where k: "Math_round x = of_int k"
    by (auto simp: Math_round_def)
  show ?thesis
    unfolding two_decimals_def k by (simp add: Math_round_of_int)
qed

lemma two_decimals_0: "two_decimals 0"
  using two_decimals_rounded [of 0] by (simp add: Math_round_def)

lemma memoryUsage_kept:
  "memoryUsage (metrics (fst (trackApiRoute_enter m t u))) = memoryUsage (metrics m)"
  "memoryUsage (metrics (updateMetrics m rt sc route ty)) = memoryUsage (metrics m)"
  "memoryUsage (metrics (trackPageView m p)) = memoryUsage (metrics m)"
  "memoryUsage (metrics (trackCustomEvent m n d)) = memoryUsage (metrics m)"
  "memoryUsage (metrics (updateBuildInfo m e)) = memoryUsage (metrics m)"
  by (simp_all add: trackApiRoute_enter_def updateMetrics_def trackPageView_def
        trackCustomEvent_def updateBuildInfo_def Let_def
        split: pkg_probe.splits next_probe.splits option.splits)

lemma exit_memoryUsage:
  "memoryUsage (metrics (fst (trackApiRoute_exit m c t h))) = memoryUsage (metrics m)"
  by (simp add: exit_fst Let_def memoryUsage_kept)

lemma cpuUsage_kept: "cpuUsage (metrics (updateBuildInfo m e)) = cpuUsage (metrics m)"
  by (simp add: updateBuildInfo_def Let_def
        split: pkg_probe.splits next_probe.splits option.splits)

lemma collectMetrics_memoryUsage:
  "memoryUsage (metrics (collectMetrics m e)) =
     Math_round (toDouble e (toDouble e (toDouble e (real (rss e) / 1024) / 1024) * 100)) / 100"
  by (simp add: collectMetrics_def Let_def memoryUsage_kept)

lemma collectMetrics_cpuUsage:
  "cpuUsage (metrics (collectMetrics m e)) =
     (let c = min 100 (max 5 (Math_round (toDouble e (toDouble e
                (toDouble e (real (cpuUser e + cpuSystem e) / 1000000) *
                 toDouble e (updateInterval (options m) / 1000)) * 10)) / 10))
      in if c < 10 \<and> requestCount (metrics m) > 0 then 15 + mathRandom e * 30 else c)"
  by (simp add: collectMetrics_def Let_def cpuUsage_kept)

lemma persist_rounded:
  assumes "\<forall>out \<in> set d. two_decimals (memoryUsage (snapshot out))"
    and "two_decimals (memoryUsage (metrics m))"
  shows "\<forall>out \<in> set (persist d (writeMetricsFile m t w)). two_decimals (memoryUsage (snapshot out))"
proof (cases w)
  case True
  obtain out where "writeMetricsFile m t True = Some out" "snapshot out = metrics m"
    using writeMetricsFile_written by blast
  with True assms show ?thesis by (simp add: persist_Some)
next
  case False
  with assms show ?thesis by (simp add: writeMetricsFile_failed persist_None)
qed

lemma step_rounded: "rounded_on_disk s \<Longrightarrow> rounded_on_disk (step s ev)"
proof (cases ev)
  case (Tick e t w)
  assume a: "rounded_on_disk s"
  show ?thesis
  proof (cases "metricsInterval (mon s)")
    case True
    have "two_decimals (memoryUsage (metrics (collectMetrics (mon s) e)))"
      by (simp add: collectMetrics_memoryUsage two_decimals_rounded)
    with a persist_rounded [of "disk s" "collectMetrics (mon s) e" t w] True Tick
    show ?thesis by (simp add: rounded_on_disk_def Let_def)
  next
    case False
    with a Tick show ?thesis by simp
  qed
next
  case (Signal t w)
  assume a: "rounded_on_disk s"
  have "snd (cleanup (mon s) t w) = writeMetricsFile (fst (cleanup (mon s) t w)) t w"
    by (simp add: cleanup_def Let_def)
  with a persist_rounded [of "disk s" "fst (cleanup (mon s) t w)" t w] Signal
  show ?thesis by (simp add: rounded_on_disk_def Let_def split_def cleanup_counters)
qed (simp_all add: rounded_on_disk_def memoryUsage_kept exit_memoryUsage)

lemma run_rounded: "rounded_on_disk s \<Longrightarrow> rounded_on_disk (run s evs)"
  by (induction evs arbitrary: s) (simp_all add: run_Nil run_Cons step_rounded del: step.simps)

lemma start_rounded: "rounded_on_disk (start opts n1 n2 p t w)"
proof -
  let ?m = "fst (new_monitor opts n1 n2 p t w)"
  have w: "snd (new_monitor opts n1 n2 p t w) = writeMetricsFile ?m t w"
    by (simp add: new_monitor_def initialize_def Let_def)
  have "two_decimals (memoryUsage (metrics ?m))"
    by (simp add: new_monitor_def initialize_def initial_metrics_def Let_def two_decimals_0)
  with persist_rounded [of "[]" ?m t w] w show ?thesis
    by (simp add: rounded_on_disk_def start_def split_def Let_def)
qed

lemma run_snoc: "run s (evs @ [ev]) = step (run s evs) ev"
  by (simp add: run_def)

lemma startTime_kept:
  "startTime (fst (trackApiRoute_enter m t u)) = startTime m"
  "startTime (updateMetrics m rt sc route ty) = startTime m"
  "startTime (trackPageView m p) = startTime m"
  "startTime (trackCustomEvent m n d) = startTime m"
  "startTime (updateBuildInfo m e) = startTime m"
  "startTime (fst (cleanup m isoNow w)) = startTime m"
  by (simp_all add: trackApiRoute_enter_def updateMetrics_def trackPageView_def
        trackCustomEvent_def updateBuildInfo_def cleanup_def Let_def
        split: pkg_probe.splits next_probe.splits option.splits)

lemma exit_startTime: "startTime (fst (trackApiRoute_exit m c t h)) = startTime m"
  by (simp add: exit_fst Let_def startTime_kept)

lemma collectMetrics_startTime: "startTime (collectMetrics m e) = startTime m"
  by (simp add: collectMetrics_def Let_def startTime_kept)

lemma step_startTime: "startTime (mon (step s ev)) = startTime (mon s)"
  by (cases ev) (simp_all add: startTime_kept exit_startTime collectMetrics_startTime
       Let_def split_def)

lemma run_startTime: "startTime (mon (run s evs)) = startTime (mon s)"
  by (induction evs arbitrary: s) (simp_all add: run_Nil run_Cons step_startTime del: step.simps)

lemma start_startTime: "startTime (mon (start opts n1 n2 p t w)) = n2"
  by (simp add: start_def new_monitor_def initialize_def Let_def)

lemma start_cpuUsage: "cpuUsage (metrics (mon (start opts n1 n2 p t w))) = 0"
  by (simp add: start_def new_monitor_def initialize_def initial_metrics_def Let_def)

lemma uptime_kept: "uptime (metrics (updateBuildInfo m e)) = uptime (metrics m)"
  by (simp add: updateBuildInfo_def Let_def
        split: pkg_probe.splits next_probe.splits option.splits)

lemma collectMetrics_uptime:
  "uptime (metrics (collectMetrics m e)) = nowUptime e - startTime m"
  by (simp add: collectMetrics_def Let_def uptime_kept)

lemma step_armed:
  "\<not> is_signal ev \<Longrightarrow> metricsInterval (mon (step s ev)) = metricsInterval (mon s)"
  by (cases ev) (simp_all add: enter_counters exit_counters trackPageView_counters
       trackCustomEvent_counters collectMetrics_counters Let_def)

lemma run_armed:
  "\<forall>ev \<in> set evs. \<not> is_signal ev \<Longrightarrow>
   metricsInterval (mon (run s evs)) = metricsInterval (mon s)"
  by (induction evs arbitrary: s) (simp_all add: run_Nil run_Cons step_armed del: step.simps)

lemma step_Tick_record:
  "metricsInterval (mon s) \<Longrightarrow>
   disk (step s (Tick e t True)) =
     disk s @ [the (writeMetricsFile (collectMetrics (mon s) e) t True)]"
  by (simp add: Let_def persist_def writeMetricsFile_def)

lemma written_fields:
  "responseTime (snapshot (the (writeMetricsFile m t True))) = responseTime (metrics m)"
  "cpuUsage (snapshot (the (writeMetricsFile m t True))) = cpuUsage (metrics m)"
  "requestRate (the (writeMetricsFile m t True)) =
     (if uptime (metrics m) > 0
      then real (requestCount (metrics m)) / (real_of_int (uptime (metrics m)) / 1000) else 0)"
  "errorRate (the (writeMetricsFile m t True)) =
     (if requestCount (metrics m) > 0
      then (real (errorCount (metrics m)) / real (requestCount (metrics m))) * 100 else 0)"
  "successRate (the (writeMetricsFile m t True)) =
     (if requestCount (metrics m) > 0
      then (real (successCount (metrics m)) / real (requestCount (metrics m))) * 100 else 100)"
  by (simp_all add: writeMetricsFile_def Let_def)

lemma clamped_one_decimal:
  "5 \<le> min 100 (max 5 (Math_round x / 10)) \<and> min 100 (max 5 (Math_round x / 10)) \<le> 100 \<and>
   Math_round (min 100 (max 5 (Math_round x / 10)) * 10) / 10 =
     min 100 (max 5 (Math_round x / 10))"
proof -
  obtain k :: int where k: "Math_round x = of_int k"
    by (auto simp: Math_round_def)
  have "min 100 (max 5 (real_of_int k / 10)) = real_of_int (min 1000 (max 50 k)) / 10"
    by (simp add: min_def max_def)
  then show ?thesis
    unfolding k by (simp add: Math_round_of_int)
qed

lemma not_two_decimals:
  "\<not> two_decimals (31 / 3)" "\<not> two_decimals (135 / 7)" "\<not> two_decimals (3 / 7)"
  "\<not> two_decimals (100 / 3)" "\<not> two_decimals (200 / 3)"
proof -
  have "\<lfloor>(3100 / 3 + 1 / 2 :: real)\<rfloor> = 1033" by (rule floor_unique) simp_all
  then show "\<not> two_decimals (31 / 3)" by (simp add: two_decimals_def Math_round_def)
  have "\<lfloor>(13500 / 7 + 1 / 2 :: real)\<rfloor> = 1929" by (rule floor_unique) simp_all
  then show "\<not> two_decimals (135 / 7)" by (simp add: two_decimals_def Math_round_def)
  have "\<lfloor>(300 / 7 + 1 / 2 :: real)\<rfloor> = 43" by (rule floor_unique) simp_all
  then show "\<not> two_decimals (3 / 7)" by (simp add: two_decimals_def Math_round_def)
  have "\<lfloor>(10000 / 3 + 1 / 2 :: real)\<rfloor> = 3333" by (rule floor_unique) simp_all
  then show "\<not> two_decimals (100 / 3)" by (simp add: two_decimals_def Math_round_def)
  have "\<lfloor>(20000 / 3 + 1 / 2 :: real)\<rfloor> = 6667" by (rule floor_unique) simp_all
  then show "\<not> two_decimals (200 / 3)" by (simp add: two_decimals_def Math_round_def)
qed

lemma sequential_calls_counts:
  "count_where is_success sequential_calls = 2"
  "count_where is_failure sequential_calls = 1"
  "mean_current True sequential_calls"
  "\<forall>ev \<in> set sequential_calls. \<not> is_signal ev"
  "samples_of_run sequential_calls = [10, 10, 11]"
  by (simp_all add: sequential_calls_def count_where_def samples_of_run_def)

lemma options_kept:
  "options (fst (trackApiRoute_enter m perfNow u)) = options m"
  "options (updateMetrics m rt sc route ty) = options m"
  "options (trackPageView m pn) = options m"
  "options (trackCustomEvent m n d) = options m"
  "options (updateBuildInfo m e) = options m"
  "options (fst (cleanup m isoNow w)) = options m"
  by (simp_all add: trackApiRoute_enter_def updateMetrics_def trackPageView_def
        trackCustomEvent_def updateBuildInfo_def cleanup_def Let_def
        split: pkg_probe.splits next_probe.splits option.splits)

lemma exit_options: "options (fst (trackApiRoute_exit m c perfNow h)) = options m"
  by (simp add: exit_fst Let_def options_kept)

lemma collectMetrics_options: "options (collectMetrics m e) = options m"
  by (simp add: collectMetrics_def Let_def options_kept)

lemma step_options: "options (mon (step s ev)) = options (mon s)"
  by (cases ev) (simp_all add: options_kept exit_options collectMetrics_options
       Let_def split_def)

lemma run_options: "options (mon (run s evs)) = options (mon s)"
  by (induction evs arbitrary: s) (simp_all add: run_Nil run_Cons step_options del: step.simps)

lemma start_options: "options (mon (start opts n1 n2 p t w)) = opts"
  by (simp add: start_def new_monitor_def initialize_def Let_def)

text \<open>
  C9, as amended. In every record on disk memoryUsage has at most 2 decimal places:
  \<open>collectMetrics\<close> rounds it to 2 places before it stores it, and until the first
  cycle it is 0. No other field is rounded to 2 places. \<open>writeMetricsFile\<close> rounds
  nothing: it writes responseTime and cpuUsage as they are stored, and requestRate,
  errorRate and successRate as the quotients it computes. The cpuUsage that is stored is
  0 in a new monitor; a cycle of \<open>collectMetrics\<close> stores a value rounded to 1 decimal
  place and clamped to the range from 5 to 100, unless that value is below 10 and a
  request has been counted: then it stores 15 + random \<times> 30, which is not rounded.
\<close>

theorem only_memoryUsage_is_rounded:
  "(\<forall>out \<in> set (disk (run (start opts n1 n2 p t w) evs)).
      two_decimals (memoryUsage (snapshot out))) \<and>
   memoryUsage (metrics (collectMetrics m e)) =
     Math_round (toDouble e (toDouble e (toDouble e (real (rss e) / 1024) / 1024) * 100)) / 100 \<and>
   cpuUsage (metrics (mon (start opts n1 n2 p t w))) = 0 \<and>
   cpuUsage (metrics (collectMetrics m e)) =
     (let c = min 100 (max 5 (Math_round (toDouble e (toDouble e
                (toDouble e (real (cpuUser e + cpuSystem e) / 1000000) *
                 toDouble e (updateInterval (options m) / 1000)) * 10)) / 10))
      in if c < 10 \<and> requestCount (metrics m) > 0 then 15 + mathRandom e * 30 else c) \<and>
   (let c = min 100 (max 5 (Math_round x / 10))
    in 5 \<le> c \<and> c \<le> 100 \<and> Math_round (c * 10) / 10 = c) \<and>
   map_option (\<lambda>out. (responseTime (snapshot out), cpuUsage (snapshot out), requestRate out,
                       errorRate out, successRate out)) (writeMetricsFile m t' True) =
     Some (responseTime (metrics m), cpuUsage (metrics m),
           (if uptime (metrics m) > 0
            then real (requestCount (metrics m)) / (real_of_int (uptime (metrics m)) / 1000)
            else 0),
           (if requestCount (metrics m) > 0
            then (real (errorCount (metrics m)) / real (requestCount (metrics m))) * 100
            else 0),
           (if requestCount (metrics m) > 0
            then (real (successCount (metrics m)) / real (requestCount (metrics m))) * 100
            else 100))"
proof -
  have "rounded_on_disk (run (start opts n1 n2 p t w) evs)"
    by (rule run_rounded) (rule start_rounded)
  then have "\<forall>out \<in> set (disk (run (start opts n1 n2 p t w) evs)).
      two_decimals (memoryUsage (snapshot out))"
    by (simp add: rounded_on_disk_def)
  moreover have "map_option (\<lambda>out. (responseTime (snapshot out), cpuUsage (snapshot out),
        requestRate out, errorRate out, successRate out)) (writeMetricsFile m t' True) =
     Some (responseTime (metrics m), cpuUsage (metrics m),
           (if uptime (metrics m) > 0
            then real (requestCount (metrics m)) / (real_of_int (uptime (metrics m)) / 1000)
            else 0),
           (if requestCount (metrics m) > 0
            then (real (errorCount (metrics m)) / real (requestCount (metrics m))) * 100
            else 0),
           (if requestCount (metrics m) > 0
            then (real (successCount (metrics m)) / real (requestCount (metrics m))) * 100
            else 100))"
    by (simp add: writeMetricsFile_def Let_def)
  moreover have "let c = min 100 (max 5 (Math_round x / 10))
    in 5 \<le> c \<and> c \<le> 100 \<and> Math_round (c * 10) / 10 = c"
    using clamped_one_decimal [of x] by (simp only: Let_def)
  ultimately show ?thesis
    by (simp only: collectMetrics_memoryUsage collectMetrics_cpuUsage start_cpuUsage simp_thms)
qed

text \<open>
  A timer tick with a resident set of 123456789 bytes: the record written has
  memoryUsage 117.74.
\<close>

theorem only_memoryUsage_is_rounded_witness:
  "memoryUsage (snapshot (last (disk (run defaultMonitor [Tick tick_env 7000 True])))) =
     11774 / 100 \<and>
   two_decimals (memoryUsage (snapshot (last (disk (run defaultMonitor
     [Tick tick_env 7000 True])))))"
proof -
  have l: "last (disk (run defaultMonitor [Tick tick_env 7000 True])) =
      the (writeMetricsFile (collectMetrics (mon defaultMonitor) tick_env) 7000 True)"
    by (simp add: run_def step_Tick_record defaultMonitor_def start_counters del: step.simps)
  have fl: "\<lfloor>(123456789 / 1024 / 1024 * 100 + 1 / 2 :: real)\<rfloor> = 11774"
    by (rule floor_unique) simp_all
  have "memoryUsage (metrics (collectMetrics (mon defaultMonitor) tick_env)) = 11774 / 100"
    using fl by (simp add: collectMetrics_memoryUsage Math_round_def tick_env_def)
  then have m: "memoryUsage (snapshot (last (disk (run defaultMonitor
      [Tick tick_env 7000 True])))) = 11774 / 100"
    by (simp only: l writeMetricsFile_the(2))
  have "last (disk (run defaultMonitor [Tick tick_env 7000 True])) \<in>
      set (disk (run defaultMonitor [Tick tick_env 7000 True]))"
    by (simp add: run_def step_Tick_record defaultMonitor_def start_counters del: step.simps)
  with only_memoryUsage_is_rounded [of defaultOptions 0 0 False 0 True
      "[Tick tick_env 7000 True]" "mon defaultMonitor" tick_env 0 0] m
  show ?thesis
    by (simp add: defaultMonitor_def del: step.simps)
qed

text \<open>
  The record that a timer tick writes 7 seconds after the start, after three calls of
  10, 10 and 11 milliseconds of which one failed, with little CPU time used and a random
  number of 1/7: responseTime is 31/3, cpuUsage 135/7, requestRate 3/7, errorRate 100/3
  and successRate 200/3, and none of them has at most 2 decimal places.
\<close>

theorem rates_not_rounded_counterexample:
  "responseTime (snapshot (last (disk (run defaultMonitor
      (sequential_calls @ [Tick tick_env 7000 True]))))) = 31 / 3 \<and>
   cpuUsage (snapshot (last (disk (run defaultMonitor
      (sequential_calls @ [Tick tick_env 7000 True]))))) = 135 / 7 \<and>
   requestRate (last (disk (run defaultMonitor
      (sequential_calls @ [Tick tick_env 7000 True])))) = 3 / 7 \<and>
   errorRate (last (disk (run defaultMonitor
      (sequential_calls @ [Tick tick_env 7000 True])))) = 100 / 3 \<and>
   successRate (last (disk (run defaultMonitor
      (sequential_calls @ [Tick tick_env 7000 True])))) = 200 / 3 \<and>
   \<not> two_decimals (31 / 3) \<and> \<not> two_decimals (135 / 7) \<and> \<not> two_decimals (3 / 7) \<and>
   \<not> two_decimals (100 / 3) \<and> \<not> two_decimals (200 / 3)"
proof -
  let ?m = "mon (run defaultMonitor sequential_calls)"
  let ?c = "collectMetrics ?m tick_env"
  have armed: "metricsInterval ?m"
    by (simp add: run_armed sequential_calls_counts defaultMonitor_def start_counters)
  have l: "last (disk (run defaultMonitor (sequential_calls @ [Tick tick_env 7000 True]))) =
      the (writeMetricsFile ?c 7000 True)"
    using armed by (simp add: run_snoc step_Tick_record del: step.simps)
  have counts: "requestCount (metrics ?m) = 3" "errorCount (metrics ?m) = 1"
      "successCount (metrics ?m) = 2"
    by (simp_all add: defaultMonitor_def run_requestCount run_errorCount run_successCount
          start_counters sequential_calls_counts)
  have "responseTime (metrics ?m) = buffer_mean (requestTimes ?m)"
    unfolding defaultMonitor_def
    by (rule run_keeps_mean [of True])
       (simp_all add: start_counters start_requestTimes buffer_mean_def sequential_calls_counts)
  also have "requestTimes ?m = [10, 10, 11]"
    by (simp add: defaultMonitor_def run_requestTimes start_requestTimes
          sequential_calls_counts last_n_def)
  finally have rt: "responseTime (metrics ?c) = 31 / 3"
    by (simp add: collectMetrics_counters buffer_mean_def)
  have "\<lfloor>(25 / 2 + 1 / 2 :: real)\<rfloor> = 13"
    by (rule floor_unique) simp_all
  moreover have "updateInterval (options ?m) = 5000"
    by (simp add: defaultMonitor_def defaultOptions_def run_options start_options)
  ultimately have cpu: "cpuUsage (metrics ?c) = 135 / 7"
    by (simp add: collectMetrics_cpuUsage counts Math_round_def tick_env_def Let_def)
  have up: "uptime (metrics ?c) = 7000"
    by (simp add: collectMetrics_uptime run_startTime defaultMonitor_def start_startTime
          tick_env_def)
  from rt cpu up counts show ?thesis
    by (simp add: l written_fields collectMetrics_counters not_two_decimals)
qed

subsection \<open>Custom events\<close>

lemma trackCustomEvent_routes:
  "routes (metrics (trackCustomEvent m n d)) =
     (let r0 = routes (metrics m);
          r1 = (if \<not> truthy (get_prop r0 n) then set_prop r0 n (Num 0) else r0)
      in set_prop r1 n (post_increment (get_prop r1 n)))"
  by (simp add: trackCustomEvent_def Let_def)

text \<open>
  A custom event with duration 0, or with none, pushes no sample; one with any other
  duration pushes exactly that sample. In every run of a new monitor, for an event name
  that is not a property name of \<^verbatim>\<open>Object.prototype\<close>, the tally of the name grows by
  exactly 1, from 0 when the name is new.
\<close>

lemma custom_event_duration:
  "requestTimes (trackCustomEvent m n (Some 0)) = requestTimes m"
  "requestTimes (trackCustomEvent m n None) = requestTimes m"
  "d \<noteq> 0 \<Longrightarrow> requestTimes (trackCustomEvent m n (Some d)) =
     (if length (requestTimes m @ [d]) > 1000 then tl (requestTimes m @ [d])
      else requestTimes m @ [d])"
  by (simp_all add: trackCustomEvent_requestTimes)

lemma routes_bumped:
  "routes (metrics (trackCustomEvent m n d)) = tally_bump (routes (metrics m)) n"
  "routes (metrics (trackPageView m n)) = tally_bump (routes (metrics m)) n"
  "routes (metrics (updateMetrics m rt sc n ty)) = tally_bump (routes (metrics m)) n"
  by (simp_all add: trackCustomEvent_def trackPageView_def updateMetrics_def tally_bump_def Let_def)

lemma routes_kept:
  "routes (metrics (fst (trackApiRoute_enter m t u))) = routes (metrics m)"
  "routes (metrics (updateBuildInfo m e)) = routes (metrics m)"
  by (simp_all add: trackApiRoute_enter_def updateBuildInfo_def Let_def
        split: pkg_probe.splits next_probe.splits option.splits)

lemma collectMetrics_routes: "routes (metrics (collectMetrics m e)) = routes (metrics m)"
  by (simp add: collectMetrics_def Let_def routes_kept)

lemma exit_routes:
  "routes (metrics (fst (trackApiRoute_exit m c t h))) = tally_bump (routes (metrics m)) (snd c)"
  by (simp add: exit_fst Let_def routes_bumped)

lemma tally_bump_regular:
  assumes "k \<notin> set object_prototype_names" and "r k \<noteq> Some NaN"
  shows "tally_bump r k k = Some (Num ((case r k of Some (Num j) \<Rightarrow> j | _ \<Rightarrow> 0) + 1))"
proof -
  from assms(1) have np: "k \<noteq> ''__proto__''"
    by (auto simp: object_prototype_names_def)
  show ?thesis
  proof (cases "r k")
    case None
    with assms np show ?thesis
      by (simp add: tally_bump_def get_prop_def set_prop_def Let_def)
  next
    case (Some v)
    with assms obtain j where "v = Num j" by (cases v) auto
    with Some np show ?thesis
      by (cases "j = 0") (simp_all add: tally_bump_def get_prop_def set_prop_def Let_def)
  qed
qed

lemma tally_bump_other: "k' \<noteq> k \<Longrightarrow> tally_bump r k k' = r k'"
  by (simp add: tally_bump_def set_prop_def Let_def)

lemma tally_bump_ok:
  assumes "tallies_ok r"
  shows "tallies_ok (tally_bump r k)"
  unfolding tallies_ok_def
proof (intro allI impI)
  fix k'
  assume n: "tally_bump r k k' = Some NaN"
  show "k' \<in> set object_prototype_names"
  proof (cases "k' = k")
    case False
    with n assms show ?thesis
      by (simp add: tally_bump_other tallies_ok_def)
  next
    case True
    show ?thesis
    proof (rule ccontr)
      assume "k' \<notin> set object_prototype_names"
      with True assms have "k \<notin> set object_prototype_names" "r k \<noteq> Some NaN"
        by (auto simp: tallies_ok_def)
      from tally_bump_regular [of k r, OF this] n True show False by simp
    qed
  qed
qed

lemma step_tallies_ok:
  "tallies_ok (routes (metrics (mon s))) \<Longrightarrow> tallies_ok (routes (metrics (mon (step s ev))))"
  by (cases ev) (simp_all add: routes_kept routes_bumped exit_routes collectMetrics_routes
       cleanup_counters tally_bump_ok Let_def split_def)

lemma run_tallies_ok:
  "tallies_ok (routes (metrics (mon s))) \<Longrightarrow> tallies_ok (routes (metrics (mon (run s evs))))"
  by (induction evs arbitrary: s)
     (simp_all add: run_Nil run_Cons step_tallies_ok del: step.simps)

lemma start_tallies_ok: "tallies_ok (routes (metrics (mon (start opts n1 n2 p t w))))"
  by (simp add: start_def new_monitor_def initialize_def initial_metrics_def Let_def
        tallies_ok_def)

lemma custom_event_counts_regular_name:
  assumes "n \<notin> set object_prototype_names"
  shows "routes (metrics (trackCustomEvent (mon (run (start opts n1 n2 p t w) evs)) n d)) n =
    Some (Num ((case routes (metrics (mon (run (start opts n1 n2 p t w) evs))) n of
                  Some (Num j) \<Rightarrow> j | _ \<Rightarrow> 0) + 1))"
proof -
  have "tallies_ok (routes (metrics (mon (run (start opts n1 n2 p t w) evs))))"
    by (rule run_tallies_ok) (rule start_tallies_ok)
  with assms have "routes (metrics (mon (run (start opts n1 n2 p t w) evs))) n \<noteq> Some NaN"
    by (auto simp: tallies_ok_def)
  from tally_bump_regular [of n "routes (metrics (mon (run (start opts n1 n2 p t w) evs)))",
      OF assms this] show ?thesis
    by (simp add: routes_bumped)
qed

text \<open>
  C10. The code at the event name \<^verbatim>\<open>constructor\<close> with duration 0, on a new monitor:
  no sample is pushed, but reading \<^verbatim>\<open>routes["constructor"]\<close> finds the member inherited
  from \<^verbatim>\<open>Object.prototype\<close>, which is truthy, so the tally is not initialised to 0, and
  \<^verbatim>\<open>++\<close> stores \<open>NaN\<close>: the tally of the name is not a count, and is not 1.
\<close>

theorem custom_event_inherited_name:
  "get_prop (routes (metrics (mon defaultMonitor))) ''constructor'' = Inherited \<and>
   requestTimes (trackCustomEvent (mon defaultMonitor) ''constructor'' (Some 0)) = [] \<and>
   routes (metrics (trackCustomEvent (mon defaultMonitor) ''constructor'' (Some 0)))
     ''constructor'' = Some NaN \<and>
   get_prop (routes (metrics (trackCustomEvent (mon defaultMonitor) ''constructor'' (Some 0))))
     ''constructor'' = Number NaN"
proof -
  have r: "routes (metrics (mon defaultMonitor)) = Map.empty"
    by (simp add: defaultMonitor_def start_def new_monitor_def initialize_def
          initial_metrics_def Let_def)
  have g: "get_prop Map.empty ''constructor'' = Inherited"
    by (simp add: get_prop_def object_prototype_names_def)
  have g0: "get_prop (routes (metrics (mon defaultMonitor))) ''constructor'' = Inherited"
    by (simp only: r g)
  have t: "requestTimes (trackCustomEvent (mon defaultMonitor) ''constructor'' (Some 0)) = []"
    by (simp add: custom_event_duration defaultMonitor_def start_requestTimes)
  have n: "routes (metrics (trackCustomEvent (mon defaultMonitor) ''constructor'' (Some 0)))
     ''constructor'' = Some NaN"
    by (simp add: trackCustomEvent_routes r g Let_def set_prop_def)
  then have "get_prop (routes (metrics (trackCustomEvent (mon defaultMonitor) ''constructor''
      (Some 0)))) ''constructor'' = Number NaN"
    by (simp add: get_prop_def)
  with g0 t n show ?thesis by simp
qed

end
